theory Spec2Isabelle
  imports Complex_Main
begin

section \<open>Data model\<close>

text \<open>
  The storefront keeps its data in relational tables. Each table is modelled as the list
  of its rows (in the order of the model's default ordering where a query relies on it),
  each row as a record, and a foreign key as the primary key of the row it names.
  \<open>DecimalField\<close> values are exact decimals; they are modelled as rationals, on which
  the sums, differences and products by integers computed here are exact as well.
  Foreign keys are kept valid by the database (\<open>CASCADE\<close>, \<open>SET_NULL\<close>): a reference to
  a row that is not in its table does not occur, and the model reads one as \<open>NULL\<close>.
\<close>

type_synonym decimal = rat

text \<open>
  Every decimal column of the schema is a \<open>DecimalField(max_digits=10, decimal_places=2)\<close>.
  A row holds a value as it is when the value has at most two decimal places and at most
  ten digits; any other value is rounded to two places or refused when the row is
  written.
\<close>

definition fits_column :: "decimal \<Rightarrow> bool" where
  "fits_column x = (of_int \<lfloor>x * 100\<rfloor> = x * 100 \<and> \<bar>x\<bar> < 10 ^ 8)"

subsection \<open>catalog/models.py\<close>

record product =
  p_id :: nat
  p_title :: string
  p_price :: decimal
  p_sale_price :: "decimal option"
  p_stock :: int

text \<open>
  \<open>v_attributes\<close> holds the values of the variant's \<open>VariantAttribute\<close> rows, already
  in the order of the attribute types' \<open>display_order\<close>.
\<close>

record product_variant =
  v_id :: nat
  v_product :: nat
  v_sku :: string
  v_price :: decimal
  v_sale_price :: "decimal option"
  v_stock :: int
  v_attributes :: "string list"

subsection \<open>cart/models.py\<close>

record cart =
  c_id :: nat
  c_user :: "nat option"
  c_session_key :: "string option"

record cart_item =
  ci_id :: nat
  ci_cart :: nat
  ci_variant :: "nat option"
  ci_product :: "nat option"
  ci_variant_sku :: string
  ci_product_title :: string
  ci_variant_attributes :: string
  ci_quantity :: int
  ci_price_snapshot :: decimal

subsection \<open>accounts/models.py\<close>

datatype address_type = Billing | Shipping

text \<open>
  An \<open>Address\<close> instance. \<open>a_pk\<close> is \<open>None\<close> until the instance is first saved; every
  row of the table has a primary key.
\<close>

record address =
  a_pk :: "nat option"
  a_user :: nat
  a_label :: string
  a_address_type :: address_type
  a_street :: string
  a_city :: string
  a_state :: string
  a_postal_code :: string
  a_country :: string
  a_phone :: string
  a_is_default_billing :: bool
  a_is_default_shipping :: bool

subsection \<open>orders/models.py\<close>

datatype order_status = Pending | Processing | Shipped | Delivered | Cancelled

datatype payment_status = Unpaid | Paid | Failed | Refunded

datatype payment_method = Cod | Card | Bkash | Nagad

text \<open>The validated data of \<open>GuestAddressSerializer\<close> (every field is present).\<close>

record guest_address =
  ga_label :: string
  ga_phone :: string
  ga_street :: string
  ga_city :: string
  ga_state :: string
  ga_postal_code :: string
  ga_country :: string

record order =
  o_pk :: "nat option"
  o_user :: "nat option"
  o_session_key :: "string option"
  o_order_number :: string
  o_status :: order_status
  o_payment_status :: payment_status
  o_billing_address :: "nat option"
  o_shipping_address :: "nat option"
  o_guest_email :: "string option"
  o_guest_phone :: "string option"
  o_guest_billing_address_data :: "guest_address option"
  o_guest_shipping_address_data :: "guest_address option"
  o_subtotal :: decimal
  o_discount :: decimal
  o_shipping_cost :: decimal
  o_total_price :: decimal
  o_notes :: string

record order_item =
  oi_pk :: "nat option"
  oi_order :: nat
  oi_product :: "nat option"
  oi_variant :: "nat option"
  oi_product_title :: string
  oi_variant_sku :: string
  oi_variant_attributes :: string
  oi_quantity :: int
  oi_unit_price :: decimal
  oi_subtotal :: decimal

record payment =
  pay_pk :: "nat option"
  pay_order :: nat
  pay_method :: payment_method
  pay_amount :: decimal
  pay_success :: bool

subsection \<open>The database\<close>

text \<open>
  Beside each table whose rows the modelled code inserts stands the last value of its
  primary-key sequence. The carts are listed in their default ordering
  (\<open>-updated_at\<close>), the cart items in theirs (\<open>added_at\<close>).
\<close>

record db =
  products :: "product list"
  variants :: "product_variant list"
  addresses :: "address list"
  address_seq :: nat
  carts :: "cart list"
  cart_items :: "cart_item list"
  orders :: "order list"
  order_seq :: nat
  order_items :: "order_item list"
  order_item_seq :: nat
  payments :: "payment list"
  payment_seq :: nat

definition find_product :: "db \<Rightarrow> nat \<Rightarrow> product option" where
  "find_product s k = find (\<lambda>p. p_id p = k) (products s)"

definition find_variant :: "db \<Rightarrow> nat \<Rightarrow> product_variant option" where
  "find_variant s k = find (\<lambda>v. v_id v = k) (variants s)"

text \<open>\<open>item.variant\<close> and \<open>item.product\<close>: the rows a cart item refers to, read on access.\<close>

definition item_variant :: "db \<Rightarrow> cart_item \<Rightarrow> product_variant option" where
  "item_variant s i = (case ci_variant i of None \<Rightarrow> None | Some k \<Rightarrow> find_variant s k)"

definition item_product :: "db \<Rightarrow> cart_item \<Rightarrow> product option" where
  "item_product s i = (case ci_product i of None \<Rightarrow> None | Some k \<Rightarrow> find_product s k)"

text \<open>\<open>cart.items.all()\<close>: the items of a cart, in table order (\<open>added_at\<close>).\<close>

definition items_all :: "db \<Rightarrow> cart \<Rightarrow> cart_item list" where
  "items_all s c = filter (\<lambda>i. ci_cart i = c_id c) (cart_items s)"

section \<open>Catalog and cart methods\<close>

definition get_effective_price :: "product_variant \<Rightarrow> decimal" where
  "get_effective_price v = (case v_sale_price v of Some sp \<Rightarrow> sp | None \<Rightarrow> v_price v)"

definition is_on_sale :: "product_variant \<Rightarrow> bool" where
  "is_on_sale v = (v_sale_price v \<noteq> None)"

text \<open>\<open>self.product.sale_price or self.product.price\<close>, as \<open>CartItem.save\<close> computes it.\<close>

definition product_effective_price :: "product \<Rightarrow> decimal" where
  "product_effective_price p =
     (case p_sale_price p of
        Some sp \<Rightarrow> if sp \<noteq> 0 then sp else p_price p
      | None \<Rightarrow> p_price p)"

text \<open>
  \<open>CartItem.get_total\<close>. The column \<open>price_snapshot\<close> is not nullable, so the branch
  for \<open>None\<close> is not taken on a stored row.
\<close>

definition get_total :: "cart_item \<Rightarrow> decimal" where
  "get_total i = ci_price_snapshot i * of_int (ci_quantity i)"

text \<open>
  \<open>CartItem.get_savings\<close>: the variant branch when the item has a variant that is on
  sale (its sale price is not \<open>None\<close>), else the product branch when the item has a
  product whose sale price is true in Python (neither \<open>None\<close> nor zero), else 0.
\<close>

definition get_savings :: "db \<Rightarrow> cart_item \<Rightarrow> decimal" where
  "get_savings s i =
     (let product_branch =
        (case item_product s i of
           Some p \<Rightarrow>
             (case p_sale_price p of
                Some sp \<Rightarrow> if sp \<noteq> 0 then (p_price p - sp) * of_int (ci_quantity i) else 0
              | None \<Rightarrow> 0)
         | None \<Rightarrow> 0)
      in case item_variant s i of
           Some v \<Rightarrow>
             (case v_sale_price v of
                Some sp \<Rightarrow> (v_price v - sp) * of_int (ci_quantity i)
              | None \<Rightarrow> product_branch)
         | None \<Rightarrow> product_branch)"

definition get_stock :: "db \<Rightarrow> cart_item \<Rightarrow> int" where
  "get_stock s i =
     (case item_variant s i of
        Some v \<Rightarrow> v_stock v
      | None \<Rightarrow> (case item_product s i of Some p \<Rightarrow> p_stock p | None \<Rightarrow> 0))"

definition get_subtotal :: "db \<Rightarrow> cart \<Rightarrow> decimal" where
  "get_subtotal s c = sum_list (map get_total (items_all s c))"

definition get_total_savings :: "db \<Rightarrow> cart \<Rightarrow> decimal" where
  "get_total_savings s c = sum_list (map (get_savings s) (items_all s c))"

definition get_attributes_display :: "product_variant \<Rightarrow> string" where
  "get_attributes_display v =
     (case v_attributes v of
        [] \<Rightarrow> []
      | a # as \<Rightarrow> a @ concat (map (\<lambda>b. '' / '' @ b) as))"

text \<open>
  \<open>CartItem.get_display_title\<close>. A variant always has its product (the foreign key is
  not nullable and cascades).
\<close>

definition get_display_title :: "db \<Rightarrow> cart_item \<Rightarrow> string" where
  "get_display_title s i =
     (case item_variant s i of
        Some v \<Rightarrow>
          (let attributes = get_attributes_display v;
               title = (case find_product s (v_product v) of Some p \<Rightarrow> p_title p | None \<Rightarrow> [])
           in if attributes \<noteq> [] then title @ '' ('' @ attributes @ '')'' else title)
      | None \<Rightarrow>
          (case item_product s i of
             Some p \<Rightarrow> p_title p
           | None \<Rightarrow>
               if ci_variant_attributes i \<noteq> []
               then ci_product_title i @ '' ('' @ ci_variant_attributes i @ '')''
               else ci_product_title i))"

section \<open>Python strings\<close>

text \<open>
  A Python string is modelled as a \<open>string\<close> whose characters are the code points
  below 256. \<open>str.strip()\<close> removes leading and trailing whitespace, \<open>str.lower()\<close>
  maps each upper-case letter to its lower-case one, \<open>str(n)\<close> is the decimal numeral.
\<close>

definition isspace :: "char \<Rightarrow> bool" where
  "isspace c = (of_char c \<in> set [9, 10, 11, 12, 13, 28, 29, 30, 31, 32, 133, 160 :: nat])"

definition strip :: "string \<Rightarrow> string" where
  "strip s = rev (dropWhile isspace (rev (dropWhile isspace s)))"

text \<open>
  The upper-case letters are the code points 65 to 90 and 192 to 222 without 215; the
  lower-case letter is 32 above, which is the same code point with bit 5 set.
\<close>

definition lower_char :: "char \<Rightarrow> char" where
  "lower_char c =
     (let n = (of_char c :: nat)
      in if (65 \<le> n \<and> n \<le> 90) \<or> (192 \<le> n \<and> n \<le> 222 \<and> n \<noteq> 215)
         then (case c of Char b0 b1 b2 b3 b4 b5 b6 b7 \<Rightarrow> Char b0 b1 b2 b3 b4 True b6 b7)
         else c)"

definition lower :: "string \<Rightarrow> string" where
  "lower s = map lower_char s"

definition digit_char :: "nat \<Rightarrow> char" where
  "digit_char d = ''0123456789'' ! d"

fun str_nat :: "nat \<Rightarrow> string" where
  "str_nat n = (if n < 10 then [digit_char n] else str_nat (n div 10) @ [digit_char (n mod 10)])"

text \<open>
  The equation of \<open>str_nat\<close> is used on numerals only; as a rewrite rule on a variable
  it would unfold without end.
\<close>

declare str_nat.simps [simp del]

definition str_int :: "int \<Rightarrow> string" where
  "str_int i = (if i < 0 then ''-'' @ str_nat (nat (- i)) else str_nat (nat i))"

section \<open>Exceptions and responses\<close>

datatype exn = ValueError string | IntegrityError string | AttributeError string

definition exn_str :: "exn \<Rightarrow> string" where
  "exn_str e = (case e of ValueError m \<Rightarrow> m | IntegrityError m \<Rightarrow> m | AttributeError m \<Rightarrow> m)"

text \<open>
  api/utils.py. A response carries the status code, the message and, where the view
  serialises one, the order. \<open>Unhandled e\<close> stands for a view that raised \<open>e\<close>.
\<close>

datatype response = Response nat string "order option" | Unhandled exn

definition success_response :: "order option \<Rightarrow> string \<Rightarrow> response" where
  "success_response data message = Response 200 message data"

definition created_response :: "order option \<Rightarrow> string \<Rightarrow> response" where
  "created_response data message = Response 201 message data"

definition error_response :: "string \<Rightarrow> nat \<Rightarrow> response" where
  "error_response message status_code = Response status_code message None"

definition not_found_response :: "string \<Rightarrow> response" where
  "not_found_response message = error_response message 404"

definition bad_request_response :: "string \<Rightarrow> response" where
  "bad_request_response message = error_response message 400"

section \<open>accounts/models.py: Address.save\<close>

text \<open>
  The two \<open>QuerySet.update\<close> calls of \<open>Address.save\<close>. \<open>exclude(pk=self.pk)\<close> excludes no
  row when \<open>self.pk\<close> is \<open>None\<close>.
\<close>

definition unset_default_billing :: "address \<Rightarrow> address list \<Rightarrow> address list" where
  "unset_default_billing self rows =
     map (\<lambda>a. if a_user a = a_user self \<and> a_address_type a = Billing \<and> a_is_default_billing a
                 \<and> a_pk a \<noteq> a_pk self
              then a\<lparr>a_is_default_billing := False\<rparr> else a) rows"

definition unset_default_shipping :: "address \<Rightarrow> address list \<Rightarrow> address list" where
  "unset_default_shipping self rows =
     map (\<lambda>a. if a_user a = a_user self \<and> a_address_type a = Shipping \<and> a_is_default_shipping a
                 \<and> a_pk a \<noteq> a_pk self
              then a\<lparr>a_is_default_shipping := False\<rparr> else a) rows"

text \<open>
  \<open>Address.Meta.constraints\<close>: among the rows with \<open>is_default_billing\<close> the pair
  (user, address_type) is unique, and likewise among the rows with
  \<open>is_default_shipping\<close>. The test is whether writing \<open>row\<close> would break one of them.
\<close>

definition unique_default_violated :: "address \<Rightarrow> address list \<Rightarrow> bool" where
  "unique_default_violated row rows =
     ((a_is_default_billing row \<and>
         list_ex (\<lambda>a. a_pk a \<noteq> a_pk row \<and> a_user a = a_user row
                      \<and> a_address_type a = a_address_type row \<and> a_is_default_billing a) rows)
      \<or> (a_is_default_shipping row \<and>
         list_ex (\<lambda>a. a_pk a \<noteq> a_pk row \<and> a_user a = a_user row
                      \<and> a_address_type a = a_address_type row \<and> a_is_default_shipping a) rows))"

text \<open>
  \<open>models.Model.save\<close> on the address table: an instance without a primary key is
  inserted under the next value of the sequence; one with a primary key replaces the
  row of that key, or is inserted under it when there is none.
\<close>

definition address_model_save :: "address \<Rightarrow> db \<Rightarrow> exn + (address \<times> db)" where
  "address_model_save self s =
     (case a_pk self of
        None \<Rightarrow>
          (let k = address_seq s + 1; row = self\<lparr>a_pk := Some k\<rparr>
           in if unique_default_violated row (addresses s)
              then Inl (IntegrityError ''UNIQUE constraint failed: accounts_address'')
              else Inr (row, s\<lparr>addresses := addresses s @ [row], address_seq := k\<rparr>))
      | Some k \<Rightarrow>
          if unique_default_violated self (addresses s)
          then Inl (IntegrityError ''UNIQUE constraint failed: accounts_address'')
          else if list_ex (\<lambda>a. a_pk a = Some k) (addresses s)
          then Inr (self, s\<lparr>addresses := map (\<lambda>a. if a_pk a = Some k then self else a) (addresses s)\<rparr>)
          else Inr (self, s\<lparr>addresses := addresses s @ [self],
                              address_seq := max (address_seq s) k\<rparr>))"

text \<open>
  \<open>Address.save\<close>. Outside a transaction the two updates are committed before the row
  is written, so they stay when the write fails: the database is returned in both cases.
  \<open>AddressSerializer.create\<close> and \<open>update\<close> run the same two updates themselves and then
  write the row through this method.
\<close>

definition Address_save :: "address \<Rightarrow> db \<Rightarrow> (exn + address) \<times> db" where
  "Address_save self s =
     (let s1 = (if a_is_default_billing self
                then s\<lparr>addresses := unset_default_billing self (addresses s)\<rparr> else s);
          s2 = (if a_is_default_shipping self
                then s1\<lparr>addresses := unset_default_shipping self (addresses s1)\<rparr> else s1)
      in case address_model_save self s2 of
           Inl e \<Rightarrow> (Inl e, s2)
         | Inr (row, s3) \<Rightarrow> (Inr row, s3))"


section \<open>orders/models.py\<close>

text \<open>The primary key of a saved instance.\<close>

definition pk_of :: "nat option \<Rightarrow> nat" where
  "pk_of k = (case k of Some n \<Rightarrow> n | None \<Rightarrow> 0)"

text \<open>\<open>Order.objects.order_by('-id').first()\<close>, as the id of that order.\<close>

definition last_order_id :: "db \<Rightarrow> nat option" where
  "last_order_id s =
     (case List.map_filter o_pk (orders s) of
        [] \<Rightarrow> None
      | k # ks \<Rightarrow> Some (fold max ks k))"

text \<open>The column \<open>order_number\<close> is \<open>unique\<close>: would writing \<open>row\<close> break that?\<close>

definition order_number_taken :: "order \<Rightarrow> db \<Rightarrow> bool" where
  "order_number_taken row s =
     list_ex (\<lambda>r. o_pk r \<noteq> o_pk row \<and> o_order_number r = o_order_number row) (orders s)"

text \<open>
  \<open>Order.save\<close>: an empty \<open>order_number\<close> is generated from the highest id in the
  table; then \<open>models.Model.save\<close> inserts or replaces the row.
\<close>

definition generate_order_number :: "db \<Rightarrow> string" where
  "generate_order_number s =
     (let prefix = ''ORD'';
          next_id = (case last_order_id s of None \<Rightarrow> 1 | Some last_id \<Rightarrow> last_id + 1)
      in prefix @ ''-'' @ str_nat next_id)"

definition Order_save :: "order \<Rightarrow> db \<Rightarrow> exn + (order \<times> db)" where
  "Order_save self0 s =
     (let self =
        (if o_order_number self0 = []
         then self0\<lparr>o_order_number := generate_order_number s\<rparr>
         else self0)
      in case o_pk self of
           None \<Rightarrow>
             (let k = order_seq s + 1; row = self\<lparr>o_pk := Some k\<rparr>
              in if order_number_taken row s
                 then Inl (IntegrityError ''UNIQUE constraint failed: orders.order_number'')
                 else Inr (row, s\<lparr>orders := orders s @ [row], order_seq := k\<rparr>))
         | Some k \<Rightarrow>
             if order_number_taken self s
             then Inl (IntegrityError ''UNIQUE constraint failed: orders.order_number'')
             else if list_ex (\<lambda>r. o_pk r = Some k) (orders s)
             then Inr (self, s\<lparr>orders := map (\<lambda>r. if o_pk r = Some k then self else r) (orders s)\<rparr>)
             else Inr (self, s\<lparr>orders := orders s @ [self], order_seq := max (order_seq s) k\<rparr>))"

text \<open>
  \<open>Order.objects.create(...)\<close> with the fields the two callers pass; the other columns
  take their defaults (no order number, pending, unpaid).
\<close>

definition new_order ::
  "nat option \<Rightarrow> string option \<Rightarrow> nat option \<Rightarrow> nat option \<Rightarrow> string option \<Rightarrow> string option
   \<Rightarrow> guest_address option \<Rightarrow> guest_address option \<Rightarrow> decimal \<Rightarrow> decimal \<Rightarrow> decimal \<Rightarrow> decimal
   \<Rightarrow> string \<Rightarrow> order" where
  "new_order user session_key billing_address shipping_address guest_email guest_phone
     guest_billing_data guest_shipping_data subtotal discount shipping_cost total_price notes =
     \<lparr>o_pk = None, o_user = user, o_session_key = session_key, o_order_number = [],
      o_status = Pending, o_payment_status = Unpaid,
      o_billing_address = billing_address, o_shipping_address = shipping_address,
      o_guest_email = guest_email, o_guest_phone = guest_phone,
      o_guest_billing_address_data = guest_billing_data,
      o_guest_shipping_address_data = guest_shipping_data,
      o_subtotal = subtotal, o_discount = discount, o_shipping_cost = shipping_cost,
      o_total_price = total_price, o_notes = notes\<rparr>"

text \<open>\<open>OrderItem.objects.create(...)\<close>: the table has no constraint of its own.\<close>

definition OrderItem_create :: "order_item \<Rightarrow> db \<Rightarrow> db" where
  "OrderItem_create item s =
     (let k = order_item_seq s + 1
      in s\<lparr>order_items := order_items s @ [item\<lparr>oi_pk := Some k\<rparr>], order_item_seq := k\<rparr>)"

text \<open>\<open>Payment.objects.create(...)\<close>: \<open>order\<close> is one-to-one, hence unique.\<close>

definition Payment_create :: "payment \<Rightarrow> db \<Rightarrow> exn + db" where
  "Payment_create pay s =
     (if list_ex (\<lambda>r. pay_order r = pay_order pay) (payments s)
      then Inl (IntegrityError ''UNIQUE constraint failed: payments.order_id'')
      else (let k = payment_seq s + 1
            in Inr (s\<lparr>payments := payments s @ [pay\<lparr>pay_pk := Some k\<rparr>], payment_seq := k\<rparr>)))"

text \<open>\<open>cart.clear()\<close> and \<open>cart.items.all().delete()\<close>.\<close>

definition clear :: "cart \<Rightarrow> db \<Rightarrow> db" where
  "clear c s = s\<lparr>cart_items := filter (\<lambda>i. ci_cart i \<noteq> c_id c) (cart_items s)\<rparr>"

text \<open>The \<open>OrderItem\<close> that \<open>Order.create_from_cart\<close> writes for a cart item.\<close>

definition model_order_item :: "db \<Rightarrow> order \<Rightarrow> cart_item \<Rightarrow> order_item" where
  "model_order_item s ord item =
     \<lparr>oi_pk = None, oi_order = pk_of (o_pk ord),
      oi_product = (case item_variant s item of Some v \<Rightarrow> Some (v_product v) | None \<Rightarrow> None),
      oi_variant = map_option v_id (item_variant s item),
      oi_product_title = ci_product_title item,
      oi_variant_sku = ci_variant_sku item,
      oi_variant_attributes = ci_variant_attributes item,
      oi_quantity = ci_quantity item,
      oi_unit_price = ci_price_snapshot item,
      oi_subtotal = get_total item\<rparr>"

text \<open>
  \<open>Order.create_from_cart\<close>. It runs in no transaction of its own; the only write that
  can fail is the first, so a failure leaves the database as it was.
\<close>

definition create_from_cart ::
  "cart \<Rightarrow> nat option \<Rightarrow> nat option \<Rightarrow> decimal \<Rightarrow> decimal \<Rightarrow> db \<Rightarrow> (exn + order) \<times> db" where
  "create_from_cart c billing_address shipping_address discount shipping_cost s =
     (let user = c_user c;
          subtotal = get_subtotal s c;
          total_price = subtotal - discount + shipping_cost
      in case Order_save (new_order user (c_session_key c) billing_address shipping_address
                            None None None None subtotal discount shipping_cost total_price []) s of
           Inl e \<Rightarrow> (Inl e, s)
         | Inr (ord, s1) \<Rightarrow>
             (let s2 = fold (\<lambda>item s'. OrderItem_create (model_order_item s' ord item) s')
                         (items_all s1 c) s1
              in (Inr ord, clear c s2)))"

section \<open>api/views/order.py: CreateOrderView\<close>

text \<open>
  The request as the view reads it: the authenticated user (or none), the session key,
  and the fields of \<open>CreateOrderSerializer\<close> after field validation. Address ids are
  natural numbers; an id that is absent or 0 is false in Python.
\<close>

record request =
  r_user :: "nat option"
  r_session_key :: "string option"

record create_order_data =
  d_billing_address_id :: "nat option"
  d_shipping_address_id :: "nat option"
  d_guest_email :: "string option"
  d_guest_phone :: "string option"
  d_guest_billing_address :: "guest_address option"
  d_guest_shipping_address :: "guest_address option"
  d_discount :: decimal
  d_shipping_cost :: "decimal option"
  d_notes :: string
  d_payment_method :: payment_method

definition id_given :: "nat option \<Rightarrow> bool" where
  "id_given k = (case k of None \<Rightarrow> False | Some n \<Rightarrow> n \<noteq> 0)"

text \<open>\<open>CreateOrderSerializer.validate\<close>: true when it raises no \<open>ValidationError\<close>.\<close>

definition validate :: "request \<Rightarrow> create_order_data \<Rightarrow> bool" where
  "validate req d =
     (if r_user req \<noteq> None
      then (id_given (d_billing_address_id d) \<or> d_guest_billing_address d \<noteq> None)
           \<and> (id_given (d_shipping_address_id d) \<or> d_guest_shipping_address d \<noteq> None)
      else d_guest_billing_address d \<noteq> None \<and> d_guest_shipping_address d \<noteq> None)"

definition get_cart :: "db \<Rightarrow> request \<Rightarrow> cart option" where
  "get_cart s req =
     (case r_user req of
        Some u \<Rightarrow> find (\<lambda>c. c_user c = Some u) (carts s)
      | None \<Rightarrow>
          (case r_session_key req of
             None \<Rightarrow> None
           | Some k \<Rightarrow>
               if k = [] then None
               else find (\<lambda>c. c_session_key c = Some k \<and> c_user c = None) (carts s)))"

text \<open>
  The stock validation loop. \<open>CartItem\<close> defines \<open>get_display_title\<close> and no
  \<open>get_display_name\<close>, so building the message of the first failing item raises
  \<open>AttributeError\<close> before \<open>bad_request_response\<close> is called; the loop stands outside the
  \<open>try\<close> block. The result is \<open>None\<close> when every item passes.
\<close>

fun validate_stock :: "db \<Rightarrow> cart_item list \<Rightarrow> response option" where
  "validate_stock s [] = None"
| "validate_stock s (item # items) =
     (let available_stock = get_stock s item
      in if ci_quantity item > available_stock
         then Some (Unhandled (AttributeError
                ''CartItem object has no attribute get_display_name''))
         else validate_stock s items)"

definition capitalize :: "address_type \<Rightarrow> string" where
  "capitalize ty = (case ty of Billing \<Rightarrow> ''Billing'' | Shipping \<Rightarrow> ''Shipping'')"

text \<open>
  \<open>_get_or_create_address\<close>. \<open>Address.user\<close> is not nullable, so creating an address
  for no user fails in the database.
\<close>

definition get_or_create_address ::
  "request \<Rightarrow> nat option \<Rightarrow> guest_address option \<Rightarrow> address_type \<Rightarrow> db \<Rightarrow> exn + (address \<times> db)" where
  "get_or_create_address req address_id guest_address_data ty s =
     (if id_given address_id \<and> r_user req \<noteq> None
      then (case find (\<lambda>a. a_pk a = address_id \<and> Some (a_user a) = r_user req) (addresses s) of
              Some a \<Rightarrow> Inr (a, s)
            | None \<Rightarrow> Inl (ValueError (capitalize ty @ '' address not found'')))
      else (case guest_address_data of
              Some g \<Rightarrow>
                (case r_user req of
                   None \<Rightarrow> Inl (IntegrityError ''NOT NULL constraint failed: accounts_address.user_id'')
                 | Some u \<Rightarrow>
                     (case Address_save
                             \<lparr>a_pk = None, a_user = u, a_label = ga_label g, a_address_type = ty,
                              a_street = ga_street g, a_city = ga_city g, a_state = ga_state g,
                              a_postal_code = ga_postal_code g, a_country = ga_country g,
                              a_phone = ga_phone g, a_is_default_billing = False,
                              a_is_default_shipping = False\<rparr> s of
                        (Inl e, _) \<Rightarrow> Inl e
                      | (Inr a, s1) \<Rightarrow> Inr (a, s1)))
            | None \<Rightarrow> Inl (ValueError (capitalize ty @ '' address is required''))))"

definition calculate_shipping_cost_from_address :: "address \<Rightarrow> decimal" where
  "calculate_shipping_cost_from_address shipping_address =
     (let city = lower (strip (a_city shipping_address))
      in if city = ''dhaka'' then 60 else 120)"

definition calculate_shipping_cost_from_data :: "guest_address \<Rightarrow> decimal" where
  "calculate_shipping_cost_from_data shipping_data =
     (let city = lower (strip (ga_city shipping_data))
      in if city = ''dhaka'' then 60 else 120)"

text \<open>The choice of the shipping cost inside the transaction.\<close>

definition choose_shipping_cost ::
  "decimal option \<Rightarrow> address option \<Rightarrow> guest_address option \<Rightarrow> decimal" where
  "choose_shipping_cost provided_shipping_cost shipping_address guest_shipping_data =
     (case (case provided_shipping_cost of
              Some c \<Rightarrow> if c > 0 then Some c else None
            | None \<Rightarrow> None) of
        Some c \<Rightarrow> c
      | None \<Rightarrow>
          (case shipping_address of
             Some a \<Rightarrow> calculate_shipping_cost_from_address a
           | None \<Rightarrow>
               (case guest_shipping_data of
                  Some g \<Rightarrow> calculate_shipping_cost_from_data g
                | None \<Rightarrow> 120)))"

text \<open>
  The addresses of the order: rows of the address table for an authenticated user, the
  inline data for a guest.
\<close>

definition resolve_addresses ::
  "request \<Rightarrow> create_order_data \<Rightarrow> db
   \<Rightarrow> exn + (address option \<times> address option \<times> guest_address option \<times> guest_address option \<times> db)" where
  "resolve_addresses req d s =
     (if r_user req \<noteq> None
      then (case get_or_create_address req (d_billing_address_id d) (d_guest_billing_address d)
                   Billing s of
              Inl e \<Rightarrow> Inl e
            | Inr (billing_address, s1) \<Rightarrow>
                (case get_or_create_address req (d_shipping_address_id d)
                        (d_guest_shipping_address d) Shipping s1 of
                   Inl e \<Rightarrow> Inl e
                 | Inr (shipping_address, s2) \<Rightarrow>
                     Inr (Some billing_address, Some shipping_address, None, None, s2)))
      else Inr (None, None, d_guest_billing_address d, d_guest_shipping_address d, s))"

text \<open>The \<open>OrderItem\<close> the view writes for a cart item, and the stock reduction after it.\<close>

definition view_order_item :: "db \<Rightarrow> order \<Rightarrow> cart_item \<Rightarrow> order_item" where
  "view_order_item s ord cart_item =
     \<lparr>oi_pk = None, oi_order = pk_of (o_pk ord),
      oi_product =
        (case item_product s cart_item of
           Some p \<Rightarrow> Some (p_id p)
         | None \<Rightarrow> (case item_variant s cart_item of Some v \<Rightarrow> Some (v_product v) | None \<Rightarrow> None)),
      oi_variant = map_option v_id (item_variant s cart_item),
      oi_product_title = ci_product_title cart_item,
      oi_variant_sku = ci_variant_sku cart_item,
      oi_variant_attributes = ci_variant_attributes cart_item,
      oi_quantity = ci_quantity cart_item,
      oi_unit_price = ci_price_snapshot cart_item,
      oi_subtotal = get_total cart_item\<rparr>"

text \<open>\<open>obj.stock -= n; obj.save()\<close> writes the instance read back over its row.\<close>

definition save_variant :: "product_variant \<Rightarrow> db \<Rightarrow> db" where
  "save_variant v s = s\<lparr>variants := map (\<lambda>r. if v_id r = v_id v then v else r) (variants s)\<rparr>"

definition save_product :: "product \<Rightarrow> db \<Rightarrow> db" where
  "save_product p s = s\<lparr>products := map (\<lambda>r. if p_id r = p_id p then p else r) (products s)\<rparr>"

definition reduce_stock :: "cart_item \<Rightarrow> db \<Rightarrow> db" where
  "reduce_stock cart_item s =
     (case item_variant s cart_item of
        Some v \<Rightarrow> save_variant (v\<lparr>v_stock := v_stock v - ci_quantity cart_item\<rparr>) s
      | None \<Rightarrow>
          (case item_product s cart_item of
             Some p \<Rightarrow> save_product (p\<lparr>p_stock := p_stock p - ci_quantity cart_item\<rparr>) s
           | None \<Rightarrow> s))"

definition create_order_items :: "order \<Rightarrow> cart_item list \<Rightarrow> db \<Rightarrow> db" where
  "create_order_items ord items s =
     fold (\<lambda>cart_item s'. reduce_stock cart_item (OrderItem_create (view_order_item s' ord cart_item) s'))
       items s"

text \<open>The body of \<open>with transaction.atomic()\<close>: the order and the database, or the exception.\<close>

definition create_order_atomic ::
  "db \<Rightarrow> request \<Rightarrow> create_order_data \<Rightarrow> cart \<Rightarrow> exn + (order \<times> db)" where
  "create_order_atomic s req d c =
     (case resolve_addresses req d s of
        Inl e \<Rightarrow> Inl e
      | Inr (billing_address, shipping_address, guest_billing_data, guest_shipping_data, s1) \<Rightarrow>
          (let shipping_cost =
                 choose_shipping_cost (d_shipping_cost d) shipping_address guest_shipping_data;
               subtotal = get_subtotal s1 c;
               discount = d_discount d;
               total_price = subtotal - discount + shipping_cost
           in case Order_save
                     (new_order (r_user req)
                        (if r_user req = None then c_session_key c else None)
                        (case billing_address of Some a \<Rightarrow> a_pk a | None \<Rightarrow> None)
                        (case shipping_address of Some a \<Rightarrow> a_pk a | None \<Rightarrow> None)
                        (d_guest_email d) (d_guest_phone d)
                        guest_billing_data guest_shipping_data
                        subtotal discount shipping_cost total_price (d_notes d)) s1 of
                Inl e \<Rightarrow> Inl e
              | Inr (ord, s2) \<Rightarrow>
                  (let s3 = create_order_items ord (items_all s2 c) s2
                   in case Payment_create
                             \<lparr>pay_pk = None, pay_order = pk_of (o_pk ord),
                              pay_method = d_payment_method d, pay_amount = total_price,
                              pay_success = False\<rparr> s3 of
                        Inl e \<Rightarrow> Inl e
                      | Inr s4 \<Rightarrow> Inr (ord, clear c s4))))"

text \<open>
  \<open>CreateOrderView.post\<close>: the response and the database after the request. An
  exception inside the transaction rolls it back and is reported with status 500.
\<close>

definition post :: "db \<Rightarrow> request \<Rightarrow> create_order_data \<Rightarrow> response \<times> db" where
  "post s req d =
     (if \<not> validate req d then (bad_request_response ''Invalid data'', s)
      else case get_cart s req of
             None \<Rightarrow> (bad_request_response ''Cart not found'', s)
           | Some c \<Rightarrow>
               if length (items_all s c) = 0 then (bad_request_response ''Cart is empty'', s)
               else case validate_stock s (items_all s c) of
                      Some r \<Rightarrow> (r, s)
                    | None \<Rightarrow>
                        (case create_order_atomic s req d c of
                           Inr (ord, s') \<Rightarrow>
                             (created_response (Some ord) ''Order created successfully'', s')
                         | Inl e \<Rightarrow>
                             (error_response (''Failed to create order: '' @ exn_str e) 500, s)))"

text \<open>
  \<open>OrderDetailSerializer.get_shipping_address\<close>, reduced to the city: the address row
  the order refers to, else the guest data stored on the order.
\<close>

definition get_shipping_address_city :: "db \<Rightarrow> order \<Rightarrow> string option" where
  "get_shipping_address_city s obj =
     (case (case o_shipping_address obj of
              None \<Rightarrow> None
            | Some k \<Rightarrow> find (\<lambda>a. a_pk a = Some k) (addresses s)) of
        Some a \<Rightarrow> Some (a_city a)
      | None \<Rightarrow> map_option ga_city (o_guest_shipping_address_data obj))"

section \<open>api/views/order.py: CancelOrderView\<close>

definition order_items_all :: "db \<Rightarrow> order \<Rightarrow> order_item list" where
  "order_items_all s ord = filter (\<lambda>i. Some (oi_order i) = o_pk ord) (order_items s)"

text \<open>\<open>item.variant\<close> and \<open>item.product\<close> of an order item, read on access.\<close>

definition order_item_variant :: "db \<Rightarrow> order_item \<Rightarrow> product_variant option" where
  "order_item_variant s i = (case oi_variant i of None \<Rightarrow> None | Some k \<Rightarrow> find_variant s k)"

definition order_item_product :: "db \<Rightarrow> order_item \<Rightarrow> product option" where
  "order_item_product s i = (case oi_product i of None \<Rightarrow> None | Some k \<Rightarrow> find_product s k)"

definition restore_stock :: "order_item \<Rightarrow> db \<Rightarrow> db" where
  "restore_stock item s =
     (case order_item_variant s item of
        Some v \<Rightarrow> save_variant (v\<lparr>v_stock := v_stock v + oi_quantity item\<rparr>) s
      | None \<Rightarrow>
          (case order_item_product s item of
             Some p \<Rightarrow> save_product (p\<lparr>p_stock := p_stock p + oi_quantity item\<rparr>) s
           | None \<Rightarrow> s))"

text \<open>\<open>Order.objects.get(...)\<close> of the view: \<open>None\<close> stands for \<open>Order.DoesNotExist\<close>.\<close>

definition get_order :: "db \<Rightarrow> request \<Rightarrow> string \<Rightarrow> order option" where
  "get_order s req order_number =
     (case r_user req of
        Some u \<Rightarrow> find (\<lambda>r. o_order_number r = order_number \<and> o_user r = Some u) (orders s)
      | None \<Rightarrow>
          (case r_session_key req of
             None \<Rightarrow> None
           | Some k \<Rightarrow>
               if k = [] then None
               else find (\<lambda>r. o_order_number r = order_number \<and> o_session_key r = Some k
                               \<and> o_user r = None) (orders s)))"

definition status_value :: "order_status \<Rightarrow> string" where
  "status_value st =
     (case st of Pending \<Rightarrow> ''pending'' | Processing \<Rightarrow> ''processing'' | Shipped \<Rightarrow> ''shipped''
      | Delivered \<Rightarrow> ''delivered'' | Cancelled \<Rightarrow> ''cancelled'')"

text \<open>
  \<open>CancelOrderView.patch\<close>. Only \<open>Order.DoesNotExist\<close> is caught; another exception
  leaves the view after the transaction has been rolled back.
\<close>

definition patch :: "db \<Rightarrow> request \<Rightarrow> string \<Rightarrow> response \<times> db" where
  "patch s req order_number =
     (case get_order s req order_number of
        None \<Rightarrow> (not_found_response ''Order not found'', s)
      | Some ord \<Rightarrow>
          if o_status ord \<in> set [Shipped, Delivered, Cancelled]
          then (bad_request_response
                  (''Cannot cancel order with status: '' @ status_value (o_status ord)), s)
          else if o_payment_status ord = Paid
          then (bad_request_response
                  ''Cannot cancel paid order. Please contact support for refund.'', s)
          else (let s1 = fold restore_stock (order_items_all s ord) s
                in case Order_save (ord\<lparr>o_status := Cancelled, o_payment_status := Failed\<rparr>) s1 of
                     Inl e \<Rightarrow> (Unhandled e, s)
                   | Inr (ord', s2) \<Rightarrow>
                       (success_response (Some ord') ''Order cancelled successfully'', s2)))"

section \<open>api/views/cart.py: CartView._merge_carts\<close>

text \<open>
  \<open>CartItem.save\<close> on a stored item: the price snapshot is set when it is false (zero),
  the backup columns are refreshed from the variant or the product, and the row is
  rewritten.
\<close>

definition CartItem_save :: "cart_item \<Rightarrow> db \<Rightarrow> db" where
  "CartItem_save self0 s =
     (let self =
        (case item_variant s self0 of
           Some v \<Rightarrow>
             self0\<lparr>ci_price_snapshot :=
                      (if ci_price_snapshot self0 = 0 then get_effective_price v
                       else ci_price_snapshot self0),
                    ci_variant_sku := v_sku v,
                    ci_product_title :=
                      (case find_product s (v_product v) of
                         Some p \<Rightarrow> p_title p
                       | None \<Rightarrow> ci_product_title self0),
                    ci_variant_attributes := get_attributes_display v\<rparr>
         | None \<Rightarrow>
             (case item_product s self0 of
                Some p \<Rightarrow>
                  self0\<lparr>ci_price_snapshot :=
                           (if ci_price_snapshot self0 = 0 then product_effective_price p
                            else ci_price_snapshot self0),
                         ci_product_title := p_title p,
                         ci_variant_sku := ''PROD-'' @ str_nat (p_id p),
                         ci_variant_attributes := []\<rparr>
              | None \<Rightarrow> self0))
      in s\<lparr>cart_items := map (\<lambda>r. if ci_id r = ci_id self then self else r) (cart_items s)\<rparr>)"

text \<open>
  One round of the loop. \<open>filter(variant=guest_item.variant)\<close> compares the column with
  the key of the guest item's variant, and is \<open>variant IS NULL\<close> when the guest item has
  no variant.
\<close>

definition merge_item :: "cart \<Rightarrow> cart_item \<Rightarrow> db \<Rightarrow> db" where
  "merge_item user_cart guest_item s =
     (case find (\<lambda>r. ci_variant r = map_option v_id (item_variant s guest_item))
             (items_all s user_cart) of
        Some user_item \<Rightarrow>
          CartItem_save (user_item\<lparr>ci_quantity := ci_quantity user_item + ci_quantity guest_item\<rparr>) s
      | None \<Rightarrow> CartItem_save (guest_item\<lparr>ci_cart := c_id user_cart\<rparr>) s)"

text \<open>\<open>guest_cart.delete()\<close> removes the cart and, by cascade, the items left in it.\<close>

definition delete_cart :: "cart \<Rightarrow> db \<Rightarrow> db" where
  "delete_cart c s =
     s\<lparr>carts := filter (\<lambda>r. c_id r \<noteq> c_id c) (carts s),
       cart_items := filter (\<lambda>i. ci_cart i \<noteq> c_id c) (cart_items s)\<rparr>"

definition merge_carts :: "cart \<Rightarrow> cart \<Rightarrow> db \<Rightarrow> db" where
  "merge_carts guest_cart user_cart s =
     delete_cart guest_cart (fold (merge_item user_cart) (items_all s guest_cart) s)"

section \<open>Deleting an order\<close>

text \<open>
  \<open>Order.delete()\<close>: the row goes, and by cascade its items and its payment. The
  primary-key sequence keeps its value.
\<close>

definition Order_delete :: "nat \<Rightarrow> db \<Rightarrow> db" where
  "Order_delete k s =
     s\<lparr>orders := filter (\<lambda>r. o_pk r \<noteq> Some k) (orders s),
       order_items := filter (\<lambda>i. oi_order i \<noteq> k) (order_items s),
       payments := filter (\<lambda>p. pay_order p \<noteq> k) (payments s)\<rparr>"

text \<open>
  The writes to the order table by a single writer: creating an order without a preset
  order number (the other fields as given), and deleting the order of a given id.
\<close>

datatype order_op = CreateOrder order | DeleteOrder nat

fun apply_order_op :: "order_op \<Rightarrow> db \<Rightarrow> db" where
  "apply_order_op (CreateOrder new) s =
     (case Order_save (new\<lparr>o_pk := None, o_order_number := []\<rparr>) s of
        Inr (_, s') \<Rightarrow> s'
      | Inl _ \<Rightarrow> s)"
| "apply_order_op (DeleteOrder k) s = Order_delete k s"

definition apply_order_ops :: "order_op list \<Rightarrow> db \<Rightarrow> db" where
  "apply_order_ops ops s = fold apply_order_op ops s"

text \<open>The number an order number ends in: the decimal numeral after \<open>ORD-\<close>.\<close>

definition digit_value :: "char \<Rightarrow> nat" where
  "digit_value c = of_char c - 48"

definition parse_nat :: "string \<Rightarrow> nat" where
  "parse_nat cs = foldl (\<lambda>n c. 10 * n + digit_value c) 0 cs"

definition order_number_value :: "order \<Rightarrow> nat" where
  "order_number_value r = parse_nat (drop 4 (o_order_number r))"

section \<open>The properties in the specification's words\<close>

text \<open>
  The savings of an item as the specification states them: the list price less the
  effective price, not below zero, times the quantity; the effective price is the sale
  price when one is set, else the list price.
\<close>

definition spec_item_savings :: "db \<Rightarrow> cart_item \<Rightarrow> decimal" where
  "spec_item_savings s i =
     (case item_variant s i of
        Some v \<Rightarrow>
          max 0 (v_price v - (case v_sale_price v of Some sp \<Rightarrow> sp | None \<Rightarrow> v_price v))
            * of_int (ci_quantity i)
      | None \<Rightarrow>
          (case item_product s i of
             Some p \<Rightarrow>
               max 0 (p_price p - (case p_sale_price p of Some sp \<Rightarrow> sp | None \<Rightarrow> p_price p))
                 * of_int (ci_quantity i)
           | None \<Rightarrow> 0))"

definition spec_total_savings :: "db \<Rightarrow> cart \<Rightarrow> decimal" where
  "spec_total_savings s c = sum_list (map (spec_item_savings s) (items_all s c))"

text \<open>
  The message the specification asks for when an item fails the stock check: the
  item's display name and the stock that is available.
\<close>

definition spec_insufficient_stock_response :: "db \<Rightarrow> cart_item \<Rightarrow> response" where
  "spec_insufficient_stock_response s item =
     bad_request_response
       (''Insufficient stock for '' @ get_display_title s item @ ''. Only ''
          @ str_int (get_stock s item) @ '' available.'')"

text \<open>The target of a cart item: its variant, or its base product when it has none.\<close>

definition same_target :: "cart_item \<Rightarrow> cart_item \<Rightarrow> bool" where
  "same_target a b = (ci_variant a = ci_variant b \<and> ci_product a = ci_product b)"

text \<open>
  The cart merge as the specification states it: a guest item whose target is already
  in the user cart adds its quantity to that item, every other guest item moves to the
  user cart, and the guest cart is deleted.
\<close>

definition spec_merge_item :: "cart \<Rightarrow> cart_item \<Rightarrow> db \<Rightarrow> db" where
  "spec_merge_item user_cart guest_item s =
     (case find (same_target guest_item) (items_all s user_cart) of
        Some user_item \<Rightarrow>
          s\<lparr>cart_items :=
               map (\<lambda>r. if ci_id r = ci_id user_item
                         then r\<lparr>ci_quantity := ci_quantity r + ci_quantity guest_item\<rparr> else r)
                 (cart_items s)\<rparr>
      | None \<Rightarrow>
          s\<lparr>cart_items :=
               map (\<lambda>r. if ci_id r = ci_id guest_item then r\<lparr>ci_cart := c_id user_cart\<rparr> else r)
                 (cart_items s)\<rparr>)"

definition spec_merge_carts :: "cart \<Rightarrow> cart \<Rightarrow> db \<Rightarrow> db" where
  "spec_merge_carts guest_cart user_cart s =
     delete_cart guest_cart (fold (spec_merge_item user_cart) (items_all s guest_cart) s)"

text \<open>What a response is: the created response carries status 201.\<close>

definition is_created :: "response \<Rightarrow> bool" where
  "is_created r = (case r of Response code _ _ \<Rightarrow> code = 201 | Unhandled _ \<Rightarrow> False)"

text \<open>
  The stock an order item gives back on cancellation goes to its variant, or to its
  product when it has no variant.
\<close>

definition restores_variant :: "db \<Rightarrow> order_item \<Rightarrow> nat \<Rightarrow> bool" where
  "restores_variant s i k = (map_option v_id (order_item_variant s i) = Some k)"

definition restores_product :: "db \<Rightarrow> order_item \<Rightarrow> nat \<Rightarrow> bool" where
  "restores_product s i k =
     (order_item_variant s i = None \<and> map_option p_id (order_item_product s i) = Some k)"

definition variant_stock :: "db \<Rightarrow> nat \<Rightarrow> int option" where
  "variant_stock s k = map_option v_stock (find_variant s k)"

definition product_stock :: "db \<Rightarrow> nat \<Rightarrow> int option" where
  "product_stock s k = map_option p_stock (find_product s k)"

text \<open>
  The stock a cart item takes when it is ordered comes from its variant, or from its
  product when it has no variant.
\<close>

definition takes_variant :: "db \<Rightarrow> cart_item \<Rightarrow> nat \<Rightarrow> bool" where
  "takes_variant s i k = (map_option v_id (item_variant s i) = Some k)"

definition takes_product :: "db \<Rightarrow> cart_item \<Rightarrow> nat \<Rightarrow> bool" where
  "takes_product s i k =
     (item_variant s i = None \<and> map_option p_id (item_product s i) = Some k)"

text \<open>
  The shipping cost as the specification states it: the cost the caller supplies when it
  is positive; otherwise 60 when the city of the shipping address, stripped and in lower
  case, is \<open>dhaka\<close>, and 120 for every other city.
\<close>

definition spec_shipping_cost :: "decimal option \<Rightarrow> string \<Rightarrow> decimal" where
  "spec_shipping_cost provided city =
     (case provided of
        Some c \<Rightarrow> if c > 0 then c else if lower (strip city) = ''dhaka'' then 60 else 120
      | None \<Rightarrow> if lower (strip city) = ''dhaka'' then 60 else 120)"

text \<open>
  The primary keys of the address table: every row has one, issued by the sequence, and
  no two rows share one.
\<close>

definition address_keys_ok :: "db \<Rightarrow> bool" where
  "address_keys_ok s =
     (distinct (map a_pk (addresses s))
      \<and> list_all (\<lambda>a. case a_pk a of Some k \<Rightarrow> k \<le> address_seq s | None \<Rightarrow> False) (addresses s))"

text \<open>
  The keys of the order table: every row has a primary key, and the column
  \<open>order_number\<close> is unique.
\<close>

definition order_keys_ok :: "db \<Rightarrow> bool" where
  "order_keys_ok s =
     (list_all (\<lambda>r. o_pk r \<noteq> None) (orders s) \<and> distinct (map o_order_number (orders s)))"





text \<open>The row-wise effect of the two updates of \<open>Address.save\<close>, and the table invariants.\<close>

definition clear_billing :: "address \<Rightarrow> address \<Rightarrow> address" where
  "clear_billing self a =
     (if a_user a = a_user self \<and> a_address_type a = Billing \<and> a_is_default_billing a
           \<and> a_pk a \<noteq> a_pk self
      then a\<lparr>a_is_default_billing := False\<rparr> else a)"

definition clear_shipping :: "address \<Rightarrow> address \<Rightarrow> address" where
  "clear_shipping self a =
     (if a_user a = a_user self \<and> a_address_type a = Shipping \<and> a_is_default_shipping a
           \<and> a_pk a \<noteq> a_pk self
      then a\<lparr>a_is_default_shipping := False\<rparr> else a)"



text \<open>
  The order table as a single writer leaves it when every order was created without a
  preset order number: each row has a primary key issued by the sequence, and its order
  number is \<open>ORD-\<close> and a number not above that key.
\<close>

definition order_numbers_ok :: "db \<Rightarrow> bool" where
  "order_numbers_ok s =
     list_all (\<lambda>r. case o_pk r of
                   None \<Rightarrow> False
                 | Some k \<Rightarrow> k \<le> order_seq s
                     \<and> list_ex (\<lambda>n. o_order_number r = ''ORD-'' @ str_nat n) [0..<Suc k])
       (orders s)"

text \<open>The number \<open>Order.save\<close> puts after the prefix.\<close>

definition next_order_id :: "db \<Rightarrow> nat" where
  "next_order_id s = (case last_order_id s of None \<Rightarrow> 1 | Some last_id \<Rightarrow> last_id + 1)"

section \<open>Example data\<close>

definition empty_db :: db where
  "empty_db =
     \<lparr>products = [], variants = [], addresses = [], address_seq = 0, carts = [],
      cart_items = [], orders = [], order_seq = 0, order_items = [], order_item_seq = 0,
      payments = [], payment_seq = 0\<rparr>"

text \<open>
  A shop with a helmet sold in one variant (stock 5) and a bell sold without variants
  (stock 4); a user cart (user 1) and a guest cart (session \<open>abc\<close>).
\<close>

definition helmet :: product where
  "helmet = \<lparr>p_id = 1, p_title = ''Helmet'', p_price = 100, p_sale_price = None, p_stock = 0\<rparr>"

definition bell :: product where
  "bell = \<lparr>p_id = 2, p_title = ''Bell'', p_price = 10, p_sale_price = None, p_stock = 4\<rparr>"

definition lamp :: product where
  "lamp = \<lparr>p_id = 3, p_title = ''Lamp'', p_price = 30, p_sale_price = None, p_stock = 9\<rparr>"

definition helmet_red :: product_variant where
  "helmet_red =
     \<lparr>v_id = 1, v_product = 1, v_sku = ''HEL-RED'', v_price = 100, v_sale_price = Some 80,
      v_stock = 5, v_attributes = [''Red'', ''Medium'']\<rparr>"

definition user_cart1 :: cart where
  "user_cart1 = \<lparr>c_id = 1, c_user = Some 1, c_session_key = None\<rparr>"

definition guest_cart2 :: cart where
  "guest_cart2 = \<lparr>c_id = 2, c_user = None, c_session_key = Some ''abc''\<rparr>"

definition helmet_item :: cart_item where
  "helmet_item =
     \<lparr>ci_id = 1, ci_cart = 1, ci_variant = Some 1, ci_product = None,
      ci_variant_sku = ''HEL-RED'', ci_product_title = ''Helmet'',
      ci_variant_attributes = ''Red / Medium'', ci_quantity = 3, ci_price_snapshot = 80\<rparr>"

definition bell_item :: cart_item where
  "bell_item =
     \<lparr>ci_id = 2, ci_cart = 1, ci_variant = None, ci_product = Some 2,
      ci_variant_sku = ''PROD-2'', ci_product_title = ''Bell'',
      ci_variant_attributes = [], ci_quantity = 3, ci_price_snapshot = 10\<rparr>"

definition shop :: db where
  "shop = empty_db\<lparr>products := [helmet, bell, lamp], variants := [helmet_red],
                     carts := [user_cart1, guest_cart2],
                     cart_items := [helmet_item, bell_item]\<rparr>"

text \<open>The same shop when the red helmet's sale price (120) is above its list price (100).\<close>

definition overpriced_shop :: db where
  "overpriced_shop =
     shop\<lparr>variants := [helmet_red\<lparr>v_sale_price := Some 120\<rparr>],
          cart_items := [helmet_item\<lparr>ci_quantity := 1, ci_price_snapshot := 120\<rparr>]\<rparr>"

text \<open>The same shop when only 2 red helmets are left: the cart asks for 3.\<close>

definition short_shop :: db where
  "short_shop = shop\<lparr>variants := [helmet_red\<lparr>v_stock := 2\<rparr>]\<rparr>"

definition user1 :: request where
  "user1 = \<lparr>r_user = Some 1, r_session_key = None\<rparr>"

definition guest_abc :: request where
  "guest_abc = \<lparr>r_user = None, r_session_key = Some ''abc''\<rparr>"

definition home :: guest_address where
  "home =
     \<lparr>ga_label = ''Home'', ga_phone = ''017'', ga_street = ''Road 1'', ga_city = '' Dhaka '',
      ga_state = ''Dhaka'', ga_postal_code = ''1200'', ga_country = ''Bangladesh''\<rparr>"

definition checkout :: create_order_data where
  "checkout =
     \<lparr>d_billing_address_id = None, d_shipping_address_id = None, d_guest_email = None,
      d_guest_phone = None, d_guest_billing_address = Some home,
      d_guest_shipping_address = Some home, d_discount = 5, d_shipping_cost = Some 0,
      d_notes = [], d_payment_method = Cod\<rparr>"

text \<open>The guest cart holds 2 lamps; the user cart holds the helmets and the bells.\<close>

definition lamp_item :: cart_item where
  "lamp_item =
     \<lparr>ci_id = 3, ci_cart = 2, ci_variant = None, ci_product = Some 3,
      ci_variant_sku = ''PROD-3'', ci_product_title = ''Lamp'',
      ci_variant_attributes = [], ci_quantity = 2, ci_price_snapshot = 30\<rparr>"

definition merge_shop :: db where
  "merge_shop = shop\<lparr>cart_items := [helmet_item, bell_item, lamp_item]\<rparr>"

text \<open>Two addresses of user 1, both marked as the default billing address.\<close>

definition office :: address where
  "office =
     \<lparr>a_pk = None, a_user = 1, a_label = ''Office'', a_address_type = Shipping,
      a_street = ''Road 2'', a_city = ''Dhaka'', a_state = ''Dhaka'', a_postal_code = ''1200'',
      a_country = ''Bangladesh'', a_phone = ''017'', a_is_default_billing = True,
      a_is_default_shipping = False\<rparr>"

definition flat :: address where
  "flat = office\<lparr>a_label := ''Flat'', a_address_type := Billing\<rparr>"



text \<open>An order is created in the empty shop, deleted, and another one is created.\<close>

definition blank_order :: order where
  "blank_order = new_order None None None None None None None None 0 0 0 0 []"

definition first_created :: "exn + (order \<times> db)" where
  "first_created = Order_save blank_order empty_db"

definition second_created :: "exn + (order \<times> db)" where
  "second_created = Order_save blank_order (Order_delete 1 (snd (projr first_created)))"

text \<open>
  The shop after user 1 has ordered the 3 helmets and the 3 bells of the cart, and the
  same shop once that order has been shipped.
\<close>

definition order1 :: order where
  "order1 =
     \<lparr>o_pk = Some 1, o_user = Some 1, o_session_key = None, o_order_number = ''ORD-1'',
      o_status = Pending, o_payment_status = Unpaid, o_billing_address = None,
      o_shipping_address = None, o_guest_email = None, o_guest_phone = None,
      o_guest_billing_address_data = None, o_guest_shipping_address_data = None,
      o_subtotal = 270, o_discount = 5, o_shipping_cost = 60, o_total_price = 325,
      o_notes = []\<rparr>"

definition order1_helmets :: order_item where
  "order1_helmets =
     \<lparr>oi_pk = Some 1, oi_order = 1, oi_product = Some 1, oi_variant = Some 1,
      oi_product_title = ''Helmet'', oi_variant_sku = ''HEL-RED'',
      oi_variant_attributes = ''Red / Medium'', oi_quantity = 3, oi_unit_price = 80,
      oi_subtotal = 240\<rparr>"

definition order1_bells :: order_item where
  "order1_bells =
     \<lparr>oi_pk = Some 2, oi_order = 1, oi_product = Some 2, oi_variant = None,
      oi_product_title = ''Bell'', oi_variant_sku = ''PROD-2'', oi_variant_attributes = [],
      oi_quantity = 3, oi_unit_price = 10, oi_subtotal = 30\<rparr>"

definition ordered_shop :: db where
  "ordered_shop =
     shop\<lparr>variants := [helmet_red\<lparr>v_stock := 2\<rparr>],
          products := [helmet, bell\<lparr>p_stock := 1\<rparr>, lamp],
          cart_items := [], orders := [order1], order_seq := 1,
          order_items := [order1_helmets, order1_bells], order_item_seq := 2\<rparr>"

definition shipped_shop :: db where
  "shipped_shop = ordered_shop\<lparr>orders := [order1\<lparr>o_status := Shipped\<rparr>]\<rparr>"

lemmas example_defs =
  shop_def empty_db_def helmet_def bell_def lamp_def helmet_red_def user_cart1_def
  guest_cart2_def helmet_item_def bell_item_def overpriced_shop_def short_shop_def
  user1_def guest_abc_def home_def checkout_def lamp_item_def merge_shop_def office_def
  flat_def blank_order_def

lemmas lookup_defs =
  items_all_def item_variant_def item_product_def find_variant_def find_product_def

section \<open>Cart savings\<close>

text \<open>
  C5. The specification states that the total savings of a cart are the sum over its
  items of max(0, list price - effective price) times the quantity, so that no item
  contributes a negative amount. \<open>CartItem.get_savings\<close> takes the difference as it is:
  with one red helmet in the cart, listed at 100 and on sale at 120, the cart's total
  savings are -20, where the specification's sum is 0. (\<open>CartItemSerializer.get_savings\<close>
  does report "0.00" for such an item.)
\<close>

theorem total_savings_negative:
  "get_total_savings overpriced_shop user_cart1 = - 20
   \<and> spec_total_savings overpriced_shop user_cart1 = 0"
  by (simp add: example_defs lookup_defs get_total_savings_def spec_total_savings_def
        get_savings_def spec_item_savings_def)

section \<open>Order creation: the stock check\<close>

lemmas response_defs =
  bad_request_response_def error_response_def created_response_def success_response_def
  not_found_response_def

lemma validate_stock_fails:
  "i \<in> set items \<Longrightarrow> get_stock s i < ci_quantity i \<Longrightarrow>
   validate_stock s items =
     Some (Unhandled (AttributeError ''CartItem object has no attribute get_display_name''))"
  by (induction items) (auto simp: Let_def)

text \<open>
  C1. When the cart of the request holds an item whose quantity is above the current
  stock of its variant or product, order creation aborts and the database is as it was
  before the request: no order, order item or payment row is written, no stock changes,
  and the cart and its items are untouched. The response is not the 201 response.
\<close>

theorem stock_failure_no_change:
  assumes "get_cart s req = Some c" and "i \<in> set (items_all s c)"
    and "get_stock s i < ci_quantity i"
  shows "snd (post s req d) = s \<and> \<not> is_created (fst (post s req d))"
proof -
  have ne: "items_all s c \<noteq> []" using assms(2) by auto
  show ?thesis
    using assms(1) ne validate_stock_fails[OF assms(2,3)]
    by (simp add: post_def is_created_def response_defs)
qed

theorem stock_failure_no_change_witness:
  "get_cart short_shop user1 = Some user_cart1
   \<and> helmet_item \<in> set (items_all short_shop user_cart1)
   \<and> get_stock short_shop helmet_item < ci_quantity helmet_item
   \<and> snd (post short_shop user1 checkout) = short_shop
   \<and> \<not> is_created (fst (post short_shop user1 checkout))"
proof -
  have a: "get_cart short_shop user1 = Some user_cart1"
    by (simp add: get_cart_def example_defs)
  have b: "helmet_item \<in> set (items_all short_shop user_cart1)"
    by (simp add: example_defs lookup_defs)
  have c: "get_stock short_shop helmet_item < ci_quantity helmet_item"
    by (simp add: get_stock_def example_defs lookup_defs)
  from stock_failure_no_change[OF a b c, of checkout] a b c show ?thesis by simp
qed

text \<open>
  C8. The specification asks that the error of a failed stock check names the failing
  item and the stock available. The view builds that message with
  \<open>item.get_display_name()\<close>, a method \<open>CartItem\<close> does not have (its method is
  \<open>get_display_title\<close>): with 3 red helmets in the cart and 2 in stock the view raises
  \<open>AttributeError\<close> and returns no message at all, where the specification's response
  is "Insufficient stock for Helmet (Red / Medium). Only 2 available.".
\<close>

theorem stock_failure_raises:
  "post short_shop user1 checkout =
     (Unhandled (AttributeError ''CartItem object has no attribute get_display_name''),
      short_shop)
   \<and> spec_insufficient_stock_response short_shop helmet_item =
       Response 400 ''Insufficient stock for Helmet (Red / Medium). Only 2 available.'' None"
  by (simp add: post_def validate_def id_given_def get_cart_def example_defs lookup_defs
        get_stock_def spec_insufficient_stock_response_def response_defs
        get_display_title_def get_attributes_display_def str_int_def digit_char_def str_nat.simps Let_def)

section \<open>Cart merge\<close>

text \<open>
  C7. The specification states that a guest item whose target is not yet in the user
  cart moves to the user cart unchanged, and that no other user item changes.
  \<open>_merge_carts\<close> looks for a user item by \<open>variant\<close> only, and for a guest item without
  a variant that is \<open>variant IS NULL\<close>: any user item of a base product matches. Merging
  a guest cart with 2 lamps into a user cart with 3 helmets and 3 bells leaves the user
  cart with 3 helmets and 5 bells and no lamp, where the specification's merge leaves
  3 helmets, 3 bells and 2 lamps.
\<close>

theorem merge_adds_to_other_product:
  "items_all (merge_carts guest_cart2 user_cart1 merge_shop) user_cart1 =
     [helmet_item, bell_item\<lparr>ci_quantity := 5\<rparr>]
   \<and> items_all (spec_merge_carts guest_cart2 user_cart1 merge_shop) user_cart1 =
     [helmet_item, bell_item, lamp_item\<lparr>ci_cart := 1\<rparr>]"
  by (simp add: merge_carts_def spec_merge_carts_def merge_item_def spec_merge_item_def
        same_target_def delete_cart_def CartItem_save_def example_defs lookup_defs
        digit_char_def str_nat.simps Let_def)

section \<open>Order creation: what a created order holds\<close>

lemma Order_save_new:
  assumes "o_pk self = None" and "o_order_number self = []"
    and "Order_save self s = Inr (ord, s')"
  shows "ord = self\<lparr>o_order_number := generate_order_number s, o_pk := Some (order_seq s + 1)\<rparr>"
    and "s' = s\<lparr>orders := orders s @ [ord], order_seq := order_seq s + 1\<rparr>"
  using assms by (auto simp: Order_save_def Let_def split: if_splits)

lemma Payment_create_Inr:
  assumes "Payment_create p s = Inr s'"
  shows "s' = s\<lparr>payments := payments s @ [p\<lparr>pay_pk := Some (payment_seq s + 1)\<rparr>],
                 payment_seq := payment_seq s + 1\<rparr>"
  using assms by (auto simp: Payment_create_def Let_def split: if_splits)

lemma reduce_stock_frame:
  "addresses (reduce_stock i s) = addresses s"
  "address_seq (reduce_stock i s) = address_seq s"
  "carts (reduce_stock i s) = carts s"
  "cart_items (reduce_stock i s) = cart_items s"
  "orders (reduce_stock i s) = orders s"
  "order_seq (reduce_stock i s) = order_seq s"
  "order_items (reduce_stock i s) = order_items s"
  "order_item_seq (reduce_stock i s) = order_item_seq s"
  "payments (reduce_stock i s) = payments s"
  "payment_seq (reduce_stock i s) = payment_seq s"
  by (simp_all add: reduce_stock_def save_variant_def save_product_def split: option.splits)

lemma OrderItem_create_frame:
  "products (OrderItem_create x s) = products s"
  "variants (OrderItem_create x s) = variants s"
  "addresses (OrderItem_create x s) = addresses s"
  "address_seq (OrderItem_create x s) = address_seq s"
  "carts (OrderItem_create x s) = carts s"
  "cart_items (OrderItem_create x s) = cart_items s"
  "orders (OrderItem_create x s) = orders s"
  "order_seq (OrderItem_create x s) = order_seq s"
  "payments (OrderItem_create x s) = payments s"
  "payment_seq (OrderItem_create x s) = payment_seq s"
  by (simp_all add: OrderItem_create_def Let_def)

lemma create_order_items_frame:
  "addresses (create_order_items ord items s) = addresses s"
  "address_seq (create_order_items ord items s) = address_seq s"
  "carts (create_order_items ord items s) = carts s"
  "cart_items (create_order_items ord items s) = cart_items s"
  "orders (create_order_items ord items s) = orders s"
  "order_seq (create_order_items ord items s) = order_seq s"
  "payments (create_order_items ord items s) = payments s"
  "payment_seq (create_order_items ord items s) = payment_seq s"
  unfolding create_order_items_def
  by (induction items arbitrary: s; simp add: reduce_stock_frame OrderItem_create_frame)+

lemma Address_save_frame:
  assumes "Address_save a s = (r, s')"
  shows "products s' = products s \<and> variants s' = variants s \<and> carts s' = carts s
    \<and> cart_items s' = cart_items s \<and> orders s' = orders s \<and> order_seq s' = order_seq s
    \<and> order_items s' = order_items s \<and> order_item_seq s' = order_item_seq s
    \<and> payments s' = payments s \<and> payment_seq s' = payment_seq s"
  using assms
  by (auto simp: Address_save_def address_model_save_def Let_def split: option.splits if_splits sum.splits)

lemma get_or_create_address_frame:
  assumes "get_or_create_address req k g ty s = Inr (a, s')"
  shows "products s' = products s \<and> variants s' = variants s \<and> carts s' = carts s
    \<and> cart_items s' = cart_items s \<and> orders s' = orders s \<and> order_seq s' = order_seq s
    \<and> order_items s' = order_items s \<and> order_item_seq s' = order_item_seq s
    \<and> payments s' = payments s \<and> payment_seq s' = payment_seq s"
proof (cases "id_given k \<and> r_user req \<noteq> None")
  case True
  with assms show ?thesis
    by (auto simp: get_or_create_address_def split: option.splits)
next
  case False
  with assms obtain gg u x r s1 where
    "Address_save x s = (r, s1)" "r = Inr a" "s1 = s'"
    by (auto simp: get_or_create_address_def split: option.splits prod.splits sum.splits)
  with Address_save_frame[of x s r s1] show ?thesis by simp
qed

lemma resolve_addresses_frame:
  assumes "resolve_addresses req d s = Inr (ba, sa, gb, gs, s')"
  shows "products s' = products s \<and> variants s' = variants s \<and> carts s' = carts s
    \<and> cart_items s' = cart_items s \<and> orders s' = orders s \<and> order_seq s' = order_seq s
    \<and> order_items s' = order_items s \<and> order_item_seq s' = order_item_seq s
    \<and> payments s' = payments s \<and> payment_seq s' = payment_seq s"
proof (cases "r_user req \<noteq> None")
  case False
  with assms show ?thesis by (auto simp: resolve_addresses_def)
next
  case True
  with assms obtain b s1 sh where
    1: "get_or_create_address req (d_billing_address_id d) (d_guest_billing_address d) Billing s = Inr (b, s1)"
    and 2: "get_or_create_address req (d_shipping_address_id d) (d_guest_shipping_address d) Shipping s1 = Inr (sh, s')"
    by (auto simp: resolve_addresses_def split: sum.splits)
  from get_or_create_address_frame[OF 1] get_or_create_address_frame[OF 2]
  show ?thesis by simp
qed


lemma clear_frame:
  "products (clear c s) = products s" "variants (clear c s) = variants s"
  "addresses (clear c s) = addresses s" "orders (clear c s) = orders s"
  "payments (clear c s) = payments s" "order_items (clear c s) = order_items s"
  "items_all (clear c s) c = []"
  by (simp_all add: clear_def items_all_def)

lemma create_order_atomic_Inr:
  assumes "create_order_atomic s req d c = Inr (ord, s')"
  shows "\<exists>ba sa gb gs s1.
    resolve_addresses req d s = Inr (ba, sa, gb, gs, s1)
    \<and> o_shipping_cost ord = choose_shipping_cost (d_shipping_cost d) sa gs
    \<and> o_shipping_address ord = (case sa of Some a \<Rightarrow> a_pk a | None \<Rightarrow> None)
    \<and> o_guest_shipping_address_data ord = gs
    \<and> o_subtotal ord = get_subtotal s c
    \<and> o_discount ord = d_discount d
    \<and> o_total_price ord = o_subtotal ord - o_discount ord + o_shipping_cost ord
    \<and> o_pk ord = Some (order_seq s + 1)
    \<and> o_order_number ord = generate_order_number s
    \<and> orders s' = orders s @ [ord]
    \<and> addresses s' = addresses s1
    \<and> payments s' = payments s @
         [\<lparr>pay_pk = Some (payment_seq s + 1), pay_order = pk_of (o_pk ord),
           pay_method = d_payment_method d, pay_amount = o_total_price ord,
           pay_success = False\<rparr>]"
proof -
  from assms obtain ba sa gb gs s1 where
    ra: "resolve_addresses req d s = Inr (ba, sa, gb, gs, s1)"
    by (auto simp: create_order_atomic_def split: sum.splits)
  define sc where "sc = choose_shipping_cost (d_shipping_cost d) sa gs"
  define new where "new = new_order (r_user req)
      (if r_user req = None then c_session_key c else None)
      (case ba of Some a \<Rightarrow> a_pk a | None \<Rightarrow> None)
      (case sa of Some a \<Rightarrow> a_pk a | None \<Rightarrow> None)
      (d_guest_email d) (d_guest_phone d) gb gs
      (get_subtotal s1 c) (d_discount d) sc (get_subtotal s1 c - d_discount d + sc) (d_notes d)"
  from assms ra obtain s2 where
    os: "Order_save new s1 = Inr (ord, s2)"
    by (auto simp: create_order_atomic_def Let_def new_def sc_def split: sum.splits)
  define s3 where "s3 = create_order_items ord (items_all s2 c) s2"
  define pay where "pay = \<lparr>pay_pk = None, pay_order = pk_of (o_pk ord),
      pay_method = d_payment_method d, pay_amount = get_subtotal s1 c - d_discount d + sc,
      pay_success = False\<rparr>"
  from assms ra os obtain s4 where
    pc: "Payment_create pay s3 = Inr s4" and s': "s' = clear c s4"
    by (auto simp: create_order_atomic_def Let_def new_def sc_def s3_def pay_def split: sum.splits)
  have fr: "cart_items s1 = cart_items s" "orders s1 = orders s" "order_seq s1 = order_seq s"
      "payments s1 = payments s" "payment_seq s1 = payment_seq s"
    using resolve_addresses_frame[OF ra] by simp_all
  have new0: "o_pk new = None" "o_order_number new = []"
    by (simp_all add: new_def new_order_def)
  note ord = Order_save_new(1)[OF new0 os]
  note s2 = Order_save_new(2)[OF new0 os]
  have sub: "get_subtotal s1 c = get_subtotal s c"
    by (simp add: get_subtotal_def items_all_def fr)
  have gen: "generate_order_number s1 = generate_order_number s"
    by (simp add: generate_order_number_def last_order_id_def fr)
  have s4: "s4 = s3\<lparr>payments := payments s3 @ [pay\<lparr>pay_pk := Some (payment_seq s3 + 1)\<rparr>],
                 payment_seq := payment_seq s3 + 1\<rparr>"
    using Payment_create_Inr[OF pc] .
  have f3: "orders s3 = orders s2" "payments s3 = payments s2" "payment_seq s3 = payment_seq s2"
      "addresses s3 = addresses s2"
    by (simp_all add: s3_def create_order_items_frame)
  have "o_total_price ord = o_subtotal ord - o_discount ord + o_shipping_cost ord"
    by (simp add: ord new_def new_order_def)
  moreover have "payments s' = payments s @
         [\<lparr>pay_pk = Some (payment_seq s + 1), pay_order = pk_of (o_pk ord),
           pay_method = d_payment_method d, pay_amount = o_total_price ord,
           pay_success = False\<rparr>]"
    by (simp add: s' clear_frame s4 f3 s2 fr pay_def) (simp add: ord new_def new_order_def)
  moreover have "orders s' = orders s @ [ord]"
    by (simp add: s' clear_frame s4 f3 s2 fr)
  moreover have "addresses s' = addresses s1"
    by (simp add: s' clear_frame s4 f3 s2)
  ultimately show ?thesis
    using ra by (simp add: ord new_def new_order_def sc_def sub gen fr)
qed

lemma validate_stock_Some:
  "validate_stock s items = Some r \<Longrightarrow> \<not> is_created r"
  by (induction items) (auto simp: Let_def is_created_def split: if_splits)

lemma post_created:
  assumes "is_created (fst (post s req d))"
  shows "\<exists>c ord. validate req d \<and> get_cart s req = Some c \<and> items_all s c \<noteq> []
     \<and> create_order_atomic s req d c = Inr (ord, snd (post s req d))
     \<and> fst (post s req d) = created_response (Some ord) ''Order created successfully''"
proof (cases "validate req d")
  case False
  with assms show ?thesis by (simp add: post_def is_created_def response_defs)
next
  case v: True
  show ?thesis
  proof (cases "get_cart s req")
    case None
    with assms v show ?thesis by (simp add: post_def is_created_def response_defs)
  next
    case (Some c)
    show ?thesis
    proof (cases "items_all s c = []")
      case True
      with assms v Some show ?thesis by (simp add: post_def is_created_def response_defs)
    next
      case ne: False
      show ?thesis
      proof (cases "validate_stock s (items_all s c)")
        case (Some r)
        with assms v \<open>get_cart s req = Some c\<close> ne validate_stock_Some[OF Some]
        show ?thesis by (simp add: post_def)
      next
        case None
        with assms v \<open>get_cart s req = Some c\<close> ne show ?thesis
          by (auto simp: post_def is_created_def response_defs split: sum.splits)
      qed
    qed
  qed
qed


lemmas post_defs =
  post_def validate_def id_given_def get_cart_def get_stock_def create_order_atomic_def
  resolve_addresses_def get_or_create_address_def Address_save_def address_model_save_def
  unique_default_violated_def choose_shipping_cost_def calculate_shipping_cost_from_address_def
  calculate_shipping_cost_from_data_def lower_def strip_def isspace_def lower_char_def
  get_subtotal_def get_total_def Order_save_def generate_order_number_def last_order_id_def
  order_number_taken_def new_order_def create_order_items_def view_order_item_def
  OrderItem_create_def reduce_stock_def save_variant_def save_product_def Payment_create_def
  clear_def pk_of_def digit_char_def str_nat.simps List.map_filter_simps

lemma shop_order_created: "is_created (fst (post shop user1 checkout))"
  by (simp add: post_defs example_defs lookup_defs response_defs is_created_def Let_def)

lemma shop_keys_ok: "address_keys_ok shop"
  by (simp add: address_keys_ok_def example_defs)

lemma shop_order_payment:
  "payments (snd (post shop user1 checkout)) =
     [\<lparr>pay_pk = Some 1, pay_order = 1, pay_method = Cod, pay_amount = 325, pay_success = False\<rparr>]"
  by (simp add: post_defs example_defs lookup_defs response_defs Let_def)

lemma shop_order_shipping:
  "map (\<lambda>r. (o_subtotal r, o_discount r, o_shipping_cost r, o_total_price r,
              get_shipping_address_city (snd (post shop user1 checkout)) r))
     (orders (snd (post shop user1 checkout))) = [(270, 5, 60, 325, Some '' Dhaka '')]"
  by (simp add: post_defs example_defs lookup_defs response_defs get_shipping_address_city_def Let_def)

text \<open>
  C3. An order the view creates has total_price = subtotal - discount + shipping_cost,
  its subtotal is the sum over the items of the source cart of price_snapshot times
  quantity, it is the one row added to the order table, and the one row added to the
  payment table belongs to it, with amount = total_price and success = false.
\<close>

theorem created_order_totals:
  assumes "is_created (fst (post s req d))"
  shows "\<exists>c ord.
     get_cart s req = Some c
     \<and> fst (post s req d) = created_response (Some ord) ''Order created successfully''
     \<and> o_total_price ord = o_subtotal ord - o_discount ord + o_shipping_cost ord
     \<and> o_subtotal ord =
         sum_list (map (\<lambda>i. ci_price_snapshot i * of_int (ci_quantity i)) (items_all s c))
     \<and> orders (snd (post s req d)) = orders s @ [ord]
     \<and> payments (snd (post s req d)) = payments s @
         [\<lparr>pay_pk = Some (payment_seq s + 1), pay_order = pk_of (o_pk ord),
           pay_method = d_payment_method d, pay_amount = o_total_price ord,
           pay_success = False\<rparr>]"
proof -
  from post_created[OF assms] obtain c ord where
    c: "get_cart s req = Some c"
    and at: "create_order_atomic s req d c = Inr (ord, snd (post s req d))"
    and r: "fst (post s req d) = created_response (Some ord) ''Order created successfully''"
    by blast
  from create_order_atomic_Inr[OF at] c r show ?thesis
    by (auto simp: get_subtotal_def get_total_def cong: map_cong)
qed

theorem created_order_totals_witness:
  "is_created (fst (post shop user1 checkout))
   \<and> (\<exists>c ord.
     get_cart shop user1 = Some c
     \<and> fst (post shop user1 checkout) = created_response (Some ord) ''Order created successfully''
     \<and> o_total_price ord = o_subtotal ord - o_discount ord + o_shipping_cost ord
     \<and> o_subtotal ord =
         sum_list (map (\<lambda>i. ci_price_snapshot i * of_int (ci_quantity i)) (items_all shop c))
     \<and> orders (snd (post shop user1 checkout)) = orders shop @ [ord]
     \<and> payments (snd (post shop user1 checkout)) = payments shop @
         [\<lparr>pay_pk = Some (payment_seq shop + 1), pay_order = pk_of (o_pk ord),
           pay_method = d_payment_method checkout, pay_amount = o_total_price ord,
           pay_success = False\<rparr>])
   \<and> map (\<lambda>r. (o_subtotal r, o_discount r, o_shipping_cost r, o_total_price r,
                get_shipping_address_city (snd (post shop user1 checkout)) r))
       (orders (snd (post shop user1 checkout))) = [(270, 5, 60, 325, Some '' Dhaka '')]
   \<and> payments (snd (post shop user1 checkout)) =
       [\<lparr>pay_pk = Some 1, pay_order = 1, pay_method = Cod, pay_amount = 325,
         pay_success = False\<rparr>]"
  using created_order_totals[OF shop_order_created] shop_order_created shop_order_shipping
    shop_order_payment
  by blast

lemma find_distinct_key:
  "distinct (map f xs) \<Longrightarrow> a \<in> set xs \<Longrightarrow> find (\<lambda>x. f x = f a) xs = Some a"
  by (induction xs) (auto simp: image_iff)

lemma find_append_new:
  "\<forall>x\<in>set xs. \<not> P x \<Longrightarrow> P a \<Longrightarrow> find P (xs @ [a]) = Some a"
  by (induction xs) auto

lemma get_or_create_address_lookup:
  assumes ok: "address_keys_ok s"
    and g: "get_or_create_address req k g ty s = Inr (a, s')"
  shows "address_keys_ok s' \<and>
    (\<exists>n. a_pk a = Some n \<and> find (\<lambda>x. a_pk x = Some n) (addresses s') = Some a)"
proof (cases "id_given k \<and> r_user req \<noteq> None")
  case True
  with g have f: "find (\<lambda>x. a_pk x = k \<and> Some (a_user x) = r_user req) (addresses s) = Some a"
    and s': "s' = s"
    by (auto simp: get_or_create_address_def split: option.splits)
  from f have mem: "a \<in> set (addresses s)" and pk: "a_pk a = k"
    by (auto simp: find_Some_iff)
  from True obtain n where n: "k = Some n" by (cases k) (auto simp: id_given_def)
  from ok have "distinct (map a_pk (addresses s))" by (simp add: address_keys_ok_def)
  from find_distinct_key[OF this mem] pk n ok s' show ?thesis by auto
next
  case False
  with g obtain gg u where gg: "g = Some gg" and u: "r_user req = Some u"
    by (auto simp: get_or_create_address_def split: option.splits)
  define new where "new = \<lparr>a_pk = None, a_user = u, a_label = ga_label gg, a_address_type = ty,
      a_street = ga_street gg, a_city = ga_city gg, a_state = ga_state gg,
      a_postal_code = ga_postal_code gg, a_country = ga_country gg,
      a_phone = ga_phone gg, a_is_default_billing = False, a_is_default_shipping = False\<rparr>"
  have sv: "Address_save new s =
      (Inr (new\<lparr>a_pk := Some (address_seq s + 1)\<rparr>),
       s\<lparr>addresses := addresses s @ [new\<lparr>a_pk := Some (address_seq s + 1)\<rparr>],
         address_seq := address_seq s + 1\<rparr>)"
    by (simp add: Address_save_def address_model_save_def unique_default_violated_def new_def Let_def)
  from g False gg u sv have a: "a = new\<lparr>a_pk := Some (address_seq s + 1)\<rparr>"
    and s': "s' = s\<lparr>addresses := addresses s @ [a], address_seq := address_seq s + 1\<rparr>"
    by (auto simp: get_or_create_address_def new_def)
  have fresh: "\<forall>x\<in>set (addresses s). \<not> a_pk x = Some (address_seq s + 1)"
    using ok by (auto simp: address_keys_ok_def list_all_iff split: option.splits)
  have "find (\<lambda>x. a_pk x = Some (address_seq s + 1)) (addresses s') = Some a"
    unfolding s' using find_append_new[OF fresh, of a] a by simp
  moreover have "address_keys_ok s'"
    using ok fresh a by (auto simp: address_keys_ok_def s' list_all_iff split: option.splits)
  ultimately show ?thesis using a by simp
qed

text \<open>
  C4. An order the view creates carries the shipping cost of the specification: the cost
  the caller supplied when that is positive, otherwise 60 when the city of the order's
  shipping address (the address row for an authenticated user, the inline data for a
  guest), stripped and in lower case, is \<open>dhaka\<close>, and 120 for every other city. The
  address table's primary keys are assumed to be in order.
\<close>

theorem shipping_cost_rule:
  assumes cr: "is_created (fst (post s req d))" and ok: "address_keys_ok s"
  shows "\<exists>ord city.
     fst (post s req d) = created_response (Some ord) ''Order created successfully''
     \<and> get_shipping_address_city (snd (post s req d)) ord = Some city
     \<and> o_shipping_cost ord = spec_shipping_cost (d_shipping_cost d) city"
proof -
  from post_created[OF cr] obtain c ord where
    v: "validate req d"
    and at: "create_order_atomic s req d c = Inr (ord, snd (post s req d))"
    and r: "fst (post s req d) = created_response (Some ord) ''Order created successfully''"
    by blast
  from create_order_atomic_Inr[OF at] obtain ba sa gb gs s1 where
    ra: "resolve_addresses req d s = Inr (ba, sa, gb, gs, s1)"
    and sc: "o_shipping_cost ord = choose_shipping_cost (d_shipping_cost d) sa gs"
    and osa: "o_shipping_address ord = (case sa of Some a \<Rightarrow> a_pk a | None \<Rightarrow> None)"
    and ogs: "o_guest_shipping_address_data ord = gs"
    and ad: "addresses (snd (post s req d)) = addresses s1"
    by blast
  show ?thesis
  proof (cases "r_user req")
    case None
    with ra have sa: "sa = None" and gs: "gs = d_guest_shipping_address d"
      by (auto simp: resolve_addresses_def)
    from v None obtain g where g: "d_guest_shipping_address d = Some g"
      by (auto simp: validate_def)
    have "get_shipping_address_city (snd (post s req d)) ord = Some (ga_city g)"
      by (simp add: get_shipping_address_city_def osa sa ogs gs g)
    moreover have "o_shipping_cost ord = spec_shipping_cost (d_shipping_cost d) (ga_city g)"
      by (simp add: sc sa gs g choose_shipping_cost_def spec_shipping_cost_def
            calculate_shipping_cost_from_data_def Let_def split: option.splits)
    ultimately show ?thesis using r by blast
  next
    case (Some u)
    with ra obtain b s0 a where
      1: "get_or_create_address req (d_billing_address_id d) (d_guest_billing_address d) Billing s = Inr (b, s0)"
      and 2: "get_or_create_address req (d_shipping_address_id d) (d_guest_shipping_address d) Shipping s0 = Inr (a, s1)"
      and sa: "sa = Some a"
      by (auto simp: resolve_addresses_def split: sum.splits)
    from get_or_create_address_lookup[OF ok 1] have ok0: "address_keys_ok s0" by simp
    from get_or_create_address_lookup[OF ok0 2] obtain n where
      n: "a_pk a = Some n" and f: "find (\<lambda>x. a_pk x = Some n) (addresses s1) = Some a"
      by blast
    have "get_shipping_address_city (snd (post s req d)) ord = Some (a_city a)"
      by (simp add: get_shipping_address_city_def osa sa n ad f)
    moreover have "o_shipping_cost ord = spec_shipping_cost (d_shipping_cost d) (a_city a)"
      by (simp add: sc sa choose_shipping_cost_def spec_shipping_cost_def
            calculate_shipping_cost_from_address_def Let_def split: option.splits)
    ultimately show ?thesis using r by blast
  qed
qed

theorem shipping_cost_rule_witness:
  "is_created (fst (post shop user1 checkout)) \<and> address_keys_ok shop
   \<and> (\<exists>ord city.
     fst (post shop user1 checkout) = created_response (Some ord) ''Order created successfully''
     \<and> get_shipping_address_city (snd (post shop user1 checkout)) ord = Some city
     \<and> o_shipping_cost ord = spec_shipping_cost (d_shipping_cost checkout) city)
   \<and> d_shipping_cost checkout = Some 0
   \<and> map (\<lambda>r. (o_subtotal r, o_discount r, o_shipping_cost r, o_total_price r,
                get_shipping_address_city (snd (post shop user1 checkout)) r))
       (orders (snd (post shop user1 checkout))) = [(270, 5, 60, 325, Some '' Dhaka '')]"
proof -
  have "d_shipping_cost checkout = Some 0" by (simp add: checkout_def)
  with shipping_cost_rule[OF shop_order_created shop_keys_ok] shop_order_created shop_keys_ok
    shop_order_shipping
  show ?thesis by blast
qed

section \<open>Order cancellation\<close>

lemma find_map_replace:
  "find (\<lambda>r. f r = k) (map (\<lambda>r. if f r = f v then v else r) xs) =
     (case find (\<lambda>r. f r = k) xs of None \<Rightarrow> None | Some r \<Rightarrow> if k = f v then Some v else Some r)"
  by (induction xs) auto

lemma find_variant_save_variant:
  "find_variant (save_variant v s) k =
     (case find_variant s k of None \<Rightarrow> None | Some r \<Rightarrow> if k = v_id v then Some v else Some r)"
  by (simp add: find_variant_def save_variant_def find_map_replace)

lemma find_product_save_product:
  "find_product (save_product p s) k =
     (case find_product s k of None \<Rightarrow> None | Some r \<Rightarrow> if k = p_id p then Some p else Some r)"
  by (simp add: find_product_def save_product_def find_map_replace)

lemma find_variant_id: "find_variant s k = Some v \<Longrightarrow> v_id v = k"
  by (auto simp: find_variant_def find_Some_iff)

lemma find_product_id: "find_product s k = Some p \<Longrightarrow> p_id p = k"
  by (auto simp: find_product_def find_Some_iff)

lemma find_variant_save_product [simp]: "find_variant (save_product p s) = find_variant s"
  by (rule ext) (simp add: find_variant_def save_product_def)

lemma find_product_save_variant [simp]: "find_product (save_variant v s) = find_product s"
  by (rule ext) (simp add: find_product_def save_variant_def)

lemma order_item_variant_id: "order_item_variant s i = Some v \<Longrightarrow> oi_variant i = Some (v_id v)"
  by (cases "oi_variant i") (auto simp: order_item_variant_def dest: find_variant_id)

lemma order_item_product_id: "order_item_product s i = Some p \<Longrightarrow> oi_product i = Some (p_id p)"
  by (cases "oi_product i") (auto simp: order_item_product_def dest: find_product_id)

lemma restore_stock_variant_ids:
  "map_option v_id (find_variant (restore_stock it s) k) = map_option v_id (find_variant s k)"
proof (cases "order_item_variant s it")
  case (Some v)
  then show ?thesis
    by (auto simp: restore_stock_def find_variant_save_variant split: option.splits
             dest: find_variant_id)
next
  case None
  then show ?thesis by (simp add: restore_stock_def split: option.splits)
qed

lemma restore_stock_product_ids:
  "map_option p_id (find_product (restore_stock it s) k) = map_option p_id (find_product s k)"
proof (cases "order_item_variant s it")
  case (Some v)
  then show ?thesis by (simp add: restore_stock_def)
next
  case None
  then show ?thesis
    by (auto simp: restore_stock_def find_product_save_product split: option.splits
             dest: find_product_id)
qed

lemma restores_variant_stable:
  "restores_variant (restore_stock it s) i k = restores_variant s i k"
  by (cases "oi_variant i")
     (simp_all add: restores_variant_def order_item_variant_def restore_stock_variant_ids)

lemma order_item_variant_None_stable:
  "(order_item_variant (restore_stock it s) i = None) = (order_item_variant s i = None)"
proof (cases "oi_variant i")
  case None
  then show ?thesis by (simp add: order_item_variant_def)
next
  case (Some k)
  have "(find_variant (restore_stock it s) k = None) = (map_option v_id (find_variant (restore_stock it s) k) = None)"
    by simp
  also have "\<dots> = (find_variant s k = None)" by (simp add: restore_stock_variant_ids)
  finally show ?thesis using Some by (simp add: order_item_variant_def)
qed

lemma restores_product_stable:
  "restores_product (restore_stock it s) i k = restores_product s i k"
  by (cases "oi_product i")
     (simp_all add: restores_product_def order_item_product_def restore_stock_product_ids
        order_item_variant_None_stable)

lemma restore_stock_variant_stock:
  "variant_stock (restore_stock it s) k =
     map_option (\<lambda>n. n + (if restores_variant s it k then oi_quantity it else 0)) (variant_stock s k)"
proof (cases "order_item_variant s it")
  case (Some v)
  then have fv: "find_variant s (v_id v) = Some v"
    by (cases "oi_variant it") (auto simp: order_item_variant_def dest: find_variant_id)
  show ?thesis
  proof (cases "k = v_id v")
    case True
    with Some fv show ?thesis
      by (simp add: variant_stock_def restore_stock_def find_variant_save_variant restores_variant_def)
  next
    case False
    with Some show ?thesis
      by (auto simp: variant_stock_def restore_stock_def find_variant_save_variant
            restores_variant_def option.map_ident split: option.splits)
  qed
next
  case None
  then show ?thesis
    by (simp add: variant_stock_def restore_stock_def restores_variant_def option.map_ident
          split: option.splits)
qed

lemma restore_stock_product_stock:
  "product_stock (restore_stock it s) k =
     map_option (\<lambda>n. n + (if restores_product s it k then oi_quantity it else 0)) (product_stock s k)"
proof (cases "order_item_variant s it")
  case (Some v)
  then show ?thesis
    by (simp add: product_stock_def restore_stock_def restores_product_def option.map_ident)
next
  case None
  show ?thesis
  proof (cases "order_item_product s it")
    case np: None
    with None show ?thesis
      by (simp add: product_stock_def restore_stock_def restores_product_def option.map_ident)
  next
    case (Some p)
    then have fp: "find_product s (p_id p) = Some p"
      by (cases "oi_product it") (auto simp: order_item_product_def dest: find_product_id)
    show ?thesis
    proof (cases "k = p_id p")
      case True
      with Some None fp show ?thesis
        by (simp add: product_stock_def restore_stock_def find_product_save_product
              restores_product_def)
    next
      case False
      with Some None show ?thesis
        by (auto simp: product_stock_def restore_stock_def find_product_save_product
              restores_product_def option.map_ident split: option.splits)
    qed
  qed
qed

lemma fold_restore_variant_stock:
  "variant_stock (fold restore_stock items s) k =
     map_option (\<lambda>n. n + sum_list (map oi_quantity (filter (\<lambda>i. restores_variant s i k) items)))
       (variant_stock s k)"
proof (induction items arbitrary: s)
  case Nil
  then show ?case by (simp add: option.map_ident)
next
  case (Cons it items)
  have "variant_stock (fold restore_stock (it # items) s) k =
     map_option (\<lambda>n. n + sum_list (map oi_quantity (filter (\<lambda>i. restores_variant s i k) items)))
       (variant_stock (restore_stock it s) k)"
    by (simp add: Cons.IH restores_variant_stable)
  then show ?case
    by (cases "variant_stock s k") (simp_all add: restore_stock_variant_stock)
qed

lemma fold_restore_product_stock:
  "product_stock (fold restore_stock items s) k =
     map_option (\<lambda>n. n + sum_list (map oi_quantity (filter (\<lambda>i. restores_product s i k) items)))
       (product_stock s k)"
proof (induction items arbitrary: s)
  case Nil
  then show ?case by (simp add: option.map_ident)
next
  case (Cons it items)
  have "product_stock (fold restore_stock (it # items) s) k =
     map_option (\<lambda>n. n + sum_list (map oi_quantity (filter (\<lambda>i. restores_product s i k) items)))
       (product_stock (restore_stock it s) k)"
    by (simp add: Cons.IH restores_product_stable)
  then show ?case
    by (cases "product_stock s k") (simp_all add: restore_stock_product_stock)
qed

lemma restore_stock_frame:
  "orders (restore_stock i s) = orders s"
  "order_seq (restore_stock i s) = order_seq s"
  "order_items (restore_stock i s) = order_items s"
  "payments (restore_stock i s) = payments s"
  "cart_items (restore_stock i s) = cart_items s"
  "carts (restore_stock i s) = carts s"
  "addresses (restore_stock i s) = addresses s"
  by (simp_all add: restore_stock_def save_variant_def save_product_def split: option.splits)

lemma fold_restore_stock_frame:
  "orders (fold restore_stock items s) = orders s"
  "order_seq (fold restore_stock items s) = order_seq s"
  "order_items (fold restore_stock items s) = order_items s"
  "payments (fold restore_stock items s) = payments s"
  "cart_items (fold restore_stock items s) = cart_items s"
  "carts (fold restore_stock items s) = carts s"
  "addresses (fold restore_stock items s) = addresses s"
  by (induction items arbitrary: s; simp add: restore_stock_frame)+


lemma distinct_map_eq:
  "distinct (map f xs) \<Longrightarrow> x \<in> set xs \<Longrightarrow> y \<in> set xs \<Longrightarrow> f x = f y \<Longrightarrow> x = y"
  by (meson distinct_map inj_onD)

text \<open>
  C2. For a cancel request that finds its order (the order number of the route is not
  empty; the order table's keys are in order): when the order is shipped, delivered or
  cancelled, or its payment status is paid, the request is answered with a 400 response
  and the database is unchanged; otherwise the response carries the order with status
  cancelled and payment status failed, that order replaces its row, the order items
  are unchanged, and the stock of every variant and of every product has grown by the
  quantities of the order's items that refer to it (an item refers to its variant, or
  to its product when it has no variant).
\<close>

theorem cancel_order_effect:
  assumes found: "get_order s req order_number = Some ord"
    and ne: "order_number \<noteq> []"
    and ok: "order_keys_ok s"
  shows "if o_status ord \<in> {Shipped, Delivered, Cancelled} \<or> o_payment_status ord = Paid
         then snd (patch s req order_number) = s
              \<and> (\<exists>m. fst (patch s req order_number) = bad_request_response m)
         else fst (patch s req order_number) =
                success_response (Some (ord\<lparr>o_status := Cancelled, o_payment_status := Failed\<rparr>))
                  ''Order cancelled successfully''
              \<and> orders (snd (patch s req order_number)) =
                  map (\<lambda>r. if o_pk r = o_pk ord
                            then ord\<lparr>o_status := Cancelled, o_payment_status := Failed\<rparr> else r)
                    (orders s)
              \<and> order_items (snd (patch s req order_number)) = order_items s
              \<and> (\<forall>k. variant_stock (snd (patch s req order_number)) k =
                    map_option
                      (\<lambda>n. n + sum_list (map oi_quantity
                                 (filter (\<lambda>i. restores_variant s i k) (order_items_all s ord))))
                      (variant_stock s k))
              \<and> (\<forall>k. product_stock (snd (patch s req order_number)) k =
                    map_option
                      (\<lambda>n. n + sum_list (map oi_quantity
                                 (filter (\<lambda>i. restores_product s i k) (order_items_all s ord))))
                      (product_stock s k))"
proof (cases "o_status ord \<in> {Shipped, Delivered, Cancelled} \<or> o_payment_status ord = Paid")
  case True
  with found show ?thesis by (auto simp: patch_def)
next
  case False
  from found have mem: "ord \<in> set (orders s)" and num: "o_order_number ord = order_number"
    by (auto simp: get_order_def find_Some_iff split: option.splits if_splits)
  from ok mem obtain k where k: "o_pk ord = Some k"
    by (auto simp: order_keys_ok_def list_all_iff)
  define ord' where "ord' = ord\<lparr>o_status := Cancelled, o_payment_status := Failed\<rparr>"
  define s1 where "s1 = fold restore_stock (order_items_all s ord) s"
  have o1: "orders s1 = orders s" by (simp add: s1_def fold_restore_stock_frame)
  have nt: "\<not> order_number_taken ord' s1"
  proof
    assume "order_number_taken ord' s1"
    then obtain r where r: "r \<in> set (orders s)" "o_pk r \<noteq> o_pk ord"
        "o_order_number r = o_order_number ord"
      by (auto simp: order_number_taken_def list_ex_iff o1 ord'_def)
    from ok have "distinct (map o_order_number (orders s))" by (simp add: order_keys_ok_def)
    from distinct_map_eq[OF this r(1) mem r(3)] r(2) show False by simp
  qed
  have ex: "list_ex (\<lambda>r. o_pk r = Some k) (orders s1)"
    using mem k by (auto simp: list_ex_iff o1)
  have sv: "Order_save ord' s1 =
      Inr (ord', s1\<lparr>orders := map (\<lambda>r. if o_pk r = Some k then ord' else r) (orders s1)\<rparr>)"
    using nt ex k num ne by (simp add: Order_save_def Let_def ord'_def)
  have p: "patch s req order_number =
      (success_response (Some ord') ''Order cancelled successfully'',
       s1\<lparr>orders := map (\<lambda>r. if o_pk r = Some k then ord' else r) (orders s1)\<rparr>)"
    using found False sv by (simp add: patch_def Let_def s1_def ord'_def)
  have vs: "\<And>s2 x. variant_stock (s2\<lparr>orders := x\<rparr>) = variant_stock s2"
    by (rule ext) (simp add: variant_stock_def find_variant_def)
  have ps: "\<And>s2 x. product_stock (s2\<lparr>orders := x\<rparr>) = product_stock s2"
    by (rule ext) (simp add: product_stock_def find_product_def)
  show ?thesis
    using False
    by (simp add: p vs ps o1 k ord'_def[symmetric])
       (simp add: s1_def fold_restore_variant_stock fold_restore_product_stock
          fold_restore_stock_frame)
qed

lemmas cancel_example_defs =
  order1_def order1_helmets_def order1_bells_def ordered_shop_def shipped_shop_def

theorem cancel_order_effect_witness:
  "get_order ordered_shop user1 ''ORD-1'' = Some order1
   \<and> ''ORD-1'' \<noteq> [] \<and> order_keys_ok ordered_shop
   \<and> fst (patch ordered_shop user1 ''ORD-1'') =
       success_response (Some (order1\<lparr>o_status := Cancelled, o_payment_status := Failed\<rparr>))
         ''Order cancelled successfully''
   \<and> orders (snd (patch ordered_shop user1 ''ORD-1'')) =
       [order1\<lparr>o_status := Cancelled, o_payment_status := Failed\<rparr>]
   \<and> variant_stock ordered_shop 1 = Some 2
   \<and> variant_stock (snd (patch ordered_shop user1 ''ORD-1'')) 1 = Some 5
   \<and> product_stock ordered_shop 2 = Some 1
   \<and> product_stock (snd (patch ordered_shop user1 ''ORD-1'')) 2 = Some 4
   \<and> get_order shipped_shop user1 ''ORD-1'' = Some (order1\<lparr>o_status := Shipped\<rparr>)
   \<and> order_keys_ok shipped_shop
   \<and> snd (patch shipped_shop user1 ''ORD-1'') = shipped_shop"
proof -
  have a: "get_order ordered_shop user1 ''ORD-1'' = Some order1"
    by (simp add: get_order_def cancel_example_defs example_defs)
  have ne: "''ORD-1'' \<noteq> []" by simp
  have ok: "order_keys_ok ordered_shop"
    by (simp add: order_keys_ok_def cancel_example_defs example_defs)
  have b: "get_order shipped_shop user1 ''ORD-1'' = Some (order1\<lparr>o_status := Shipped\<rparr>)"
    by (simp add: get_order_def cancel_example_defs example_defs)
  have ok2: "order_keys_ok shipped_shop"
    by (simp add: order_keys_ok_def cancel_example_defs example_defs)
  have st: "o_status order1 = Pending" "o_payment_status order1 = Unpaid"
    by (simp_all add: order1_def)
  have items: "order_items_all ordered_shop order1 = [order1_helmets, order1_bells]"
    by (simp add: order_items_all_def cancel_example_defs example_defs)
  have rv: "restores_variant ordered_shop order1_helmets (Suc 0)"
    "\<not> restores_variant ordered_shop order1_bells (Suc 0)"
    "\<not> restores_product ordered_shop order1_helmets 2"
    "restores_product ordered_shop order1_bells 2"
    by (simp_all add: restores_variant_def restores_product_def order_item_variant_def
          order_item_product_def find_variant_def find_product_def cancel_example_defs
          example_defs)
  have v0: "variant_stock ordered_shop (Suc 0) = Some 2" "product_stock ordered_shop 2 = Some 1"
    by (simp_all add: variant_stock_def product_stock_def find_variant_def find_product_def
          cancel_example_defs example_defs)
  have q: "oi_quantity order1_helmets = 3" "oi_quantity order1_bells = 3"
    by (simp_all add: cancel_example_defs)
  have os: "orders ordered_shop = [order1]" "o_pk order1 = Some 1"
    by (simp_all add: cancel_example_defs example_defs)
  from cancel_order_effect[OF a ne ok] cancel_order_effect[OF b ne ok2]
  show ?thesis
    using a ok b ok2 by (simp add: st items rv v0 q os)
qed

section \<open>Order.create_from_cart and CreateOrderView.post\<close>

lemma item_variant_cong:
  "variants s = variants s0 \<Longrightarrow> item_variant s i = item_variant s0 i"
  by (cases "ci_variant i") (simp_all add: item_variant_def find_variant_def)

lemma model_order_item_cong:
  "variants s = variants s0 \<Longrightarrow> model_order_item s ord i = model_order_item s0 ord i"
  by (simp add: model_order_item_def item_variant_cong[of s s0])

lemma fold_model_items_frame:
  "products (fold (\<lambda>item s'. OrderItem_create (model_order_item s' ord item) s') items s) = products s"
  "variants (fold (\<lambda>item s'. OrderItem_create (model_order_item s' ord item) s') items s) = variants s"
  "cart_items (fold (\<lambda>item s'. OrderItem_create (model_order_item s' ord item) s') items s) = cart_items s"
  "orders (fold (\<lambda>item s'. OrderItem_create (model_order_item s' ord item) s') items s) = orders s"
  "payments (fold (\<lambda>item s'. OrderItem_create (model_order_item s' ord item) s') items s) = payments s"
  by (induction items arbitrary: s; simp add: OrderItem_create_frame)+

lemma fold_model_items_rows:
  "variants s = variants s0 \<Longrightarrow>
   \<exists>new. order_items (fold (\<lambda>item s'. OrderItem_create (model_order_item s' ord item) s') items s)
            = order_items s @ new
         \<and> map (\<lambda>r. r\<lparr>oi_pk := None\<rparr>) new = map (model_order_item s0 ord) items"
proof (induction items arbitrary: s)
  case Nil
  then show ?case by simp
next
  case (Cons i items)
  let ?s1 = "OrderItem_create (model_order_item s ord i) s"
  have v: "variants ?s1 = variants s0" using Cons.prems by (simp add: OrderItem_create_frame)
  from Cons.IH[OF v] obtain new where
    n: "order_items (fold (\<lambda>item s'. OrderItem_create (model_order_item s' ord item) s') items ?s1)
          = order_items ?s1 @ new"
    and m: "map (\<lambda>r. r\<lparr>oi_pk := None\<rparr>) new = map (model_order_item s0 ord) items"
    by blast
  have o1: "order_items ?s1 = order_items s @ [(model_order_item s0 ord i)\<lparr>oi_pk := Some (order_item_seq s + 1)\<rparr>]"
    using model_order_item_cong[OF Cons.prems] by (simp add: OrderItem_create_def Let_def)
  have p: "(model_order_item s0 ord i)\<lparr>oi_pk := None\<rparr> = model_order_item s0 ord i"
    by (simp add: model_order_item_def)
  show ?case
    apply (rule exI[of _ "(model_order_item s0 ord i)\<lparr>oi_pk := Some (order_item_seq s + 1)\<rparr> # new"])
    using n m o1 p by simp
qed

text \<open>The rows \<open>Order.create_from_cart\<close> writes and the tables it leaves alone.\<close>

lemma create_from_cart_rows:
  assumes free: "\<not> list_ex (\<lambda>r. o_order_number r = generate_order_number s) (orders s)"
  shows "\<exists>ord s' new.
     create_from_cart c billing_address shipping_address discount shipping_cost s = (Inr ord, s')
     \<and> orders s' = orders s @ [ord]
     \<and> o_subtotal ord = get_subtotal s c
     \<and> o_total_price ord = get_subtotal s c - discount + shipping_cost
     \<and> order_items s' = order_items s @ new
     \<and> list_all2
          (\<lambda>oi ci. oi_order oi = pk_of (o_pk ord)
             \<and> oi_product_title oi = ci_product_title ci
             \<and> oi_variant_sku oi = ci_variant_sku ci
             \<and> oi_variant_attributes oi = ci_variant_attributes ci
             \<and> oi_quantity oi = ci_quantity ci
             \<and> oi_unit_price oi = ci_price_snapshot ci
             \<and> oi_subtotal oi = ci_price_snapshot ci * of_int (ci_quantity ci))
          new (items_all s c)
     \<and> items_all s' c = []
     \<and> cart_items s' = filter (\<lambda>i. ci_cart i \<noteq> c_id c) (cart_items s)
     \<and> products s' = products s
     \<and> variants s' = variants s
     \<and> payments s' = payments s"
proof -
  define new_o where "new_o = new_order (c_user c) (c_session_key c) billing_address shipping_address
       None None None None (get_subtotal s c) discount shipping_cost
       (get_subtotal s c - discount + shipping_cost) []"
  define ord where "ord = new_o\<lparr>o_order_number := generate_order_number s, o_pk := Some (order_seq s + 1)\<rparr>"
  define s1 where "s1 = s\<lparr>orders := orders s @ [ord], order_seq := order_seq s + 1\<rparr>"
  define s2 where "s2 = fold (\<lambda>item s'. OrderItem_create (model_order_item s' ord item) s') (items_all s1 c) s1"
  have sv: "Order_save new_o s = Inr (ord, s1)"
    using free
    by (simp add: Order_save_def new_o_def new_order_def ord_def s1_def Let_def
          order_number_taken_def list_ex_iff)
  have res: "create_from_cart c billing_address shipping_address discount shipping_cost s
       = (Inr ord, clear c s2)"
    using sv by (simp add: create_from_cart_def Let_def new_o_def[symmetric] s2_def)
  have it: "items_all s1 c = items_all s c" by (simp add: items_all_def s1_def)
  have v1: "variants s1 = variants s" by (simp add: s1_def)
  from fold_model_items_rows[OF v1, of ord "items_all s1 c"] obtain new where
    n: "order_items s2 = order_items s1 @ new"
    and m: "map (\<lambda>r. r\<lparr>oi_pk := None\<rparr>) new = map (model_order_item s ord) (items_all s c)"
    by (auto simp: s2_def it)
  have len: "length new = length (items_all s c)"
    using arg_cong[OF m, of length] by simp
  have l2: "list_all2
          (\<lambda>oi ci. oi_order oi = pk_of (o_pk ord)
             \<and> oi_product_title oi = ci_product_title ci
             \<and> oi_variant_sku oi = ci_variant_sku ci
             \<and> oi_variant_attributes oi = ci_variant_attributes ci
             \<and> oi_quantity oi = ci_quantity ci
             \<and> oi_unit_price oi = ci_price_snapshot ci
             \<and> oi_subtotal oi = ci_price_snapshot ci * of_int (ci_quantity ci))
          new (items_all s c)"
  proof (rule list_all2_all_nthI[OF len])
    fix n assume "n < length new"
    with len have a: "n < length (items_all s c)" and b: "n < length new" by simp_all
    have "(map (\<lambda>r. r\<lparr>oi_pk := None\<rparr>) new) ! n = (map (model_order_item s ord) (items_all s c)) ! n"
      using m by simp
    with a b have e: "(new ! n)\<lparr>oi_pk := None\<rparr> = model_order_item s ord (items_all s c ! n)"
      by simp
    have "oi_order ((new ! n)\<lparr>oi_pk := None\<rparr>) = oi_order (new ! n)"
      "oi_product_title ((new ! n)\<lparr>oi_pk := None\<rparr>) = oi_product_title (new ! n)"
      "oi_variant_sku ((new ! n)\<lparr>oi_pk := None\<rparr>) = oi_variant_sku (new ! n)"
      "oi_variant_attributes ((new ! n)\<lparr>oi_pk := None\<rparr>) = oi_variant_attributes (new ! n)"
      "oi_quantity ((new ! n)\<lparr>oi_pk := None\<rparr>) = oi_quantity (new ! n)"
      "oi_unit_price ((new ! n)\<lparr>oi_pk := None\<rparr>) = oi_unit_price (new ! n)"
      "oi_subtotal ((new ! n)\<lparr>oi_pk := None\<rparr>) = oi_subtotal (new ! n)"
      by simp_all
    then show "oi_order (new ! n) = pk_of (o_pk ord)
             \<and> oi_product_title (new ! n) = ci_product_title (items_all s c ! n)
             \<and> oi_variant_sku (new ! n) = ci_variant_sku (items_all s c ! n)
             \<and> oi_variant_attributes (new ! n) = ci_variant_attributes (items_all s c ! n)
             \<and> oi_quantity (new ! n) = ci_quantity (items_all s c ! n)
             \<and> oi_unit_price (new ! n) = ci_price_snapshot (items_all s c ! n)
             \<and> oi_subtotal (new ! n) = ci_price_snapshot (items_all s c ! n) * of_int (ci_quantity (items_all s c ! n))"
      unfolding e by (simp add: model_order_item_def get_total_def)
  qed
  have f2: "products s2 = products s" "variants s2 = variants s" "cart_items s2 = cart_items s"
    "orders s2 = orders s @ [ord]" "payments s2 = payments s"
    by (simp_all add: s2_def fold_model_items_frame s1_def)
  have oi: "order_items s2 = order_items s @ new" using n by (simp add: s1_def)
  have "orders (clear c s2) = orders s @ [ord]"
    "order_items (clear c s2) = order_items s @ new"
    "items_all (clear c s2) c = []"
    "cart_items (clear c s2) = filter (\<lambda>i. ci_cart i \<noteq> c_id c) (cart_items s)"
    "products (clear c s2) = products s" "variants (clear c s2) = variants s"
    "payments (clear c s2) = payments s"
    by (simp_all add: clear_frame f2 oi) (simp add: clear_def f2)
  moreover have "o_subtotal ord = get_subtotal s c"
    "o_total_price ord = get_subtotal s c - discount + shipping_cost"
    by (simp_all add: ord_def new_o_def new_order_def)
  ultimately show ?thesis using res l2 by blast
qed

text \<open>The stock after the order items of \<open>CreateOrderView.post\<close> are written.\<close>

lemma item_product_cong:
  "products s = products s0 \<Longrightarrow> item_product s i = item_product s0 i"
  by (cases "ci_product i") (simp_all add: item_product_def find_product_def)

lemma item_variant_id: "item_variant s i = Some v \<Longrightarrow> ci_variant i = Some (v_id v)"
  by (cases "ci_variant i") (auto simp: item_variant_def dest: find_variant_id)

lemma item_product_id: "item_product s i = Some p \<Longrightarrow> ci_product i = Some (p_id p)"
  by (cases "ci_product i") (auto simp: item_product_def dest: find_product_id)

lemma reduce_stock_variant_ids:
  "map_option v_id (find_variant (reduce_stock it s) k) = map_option v_id (find_variant s k)"
proof (cases "item_variant s it")
  case (Some v)
  then show ?thesis
    by (auto simp: reduce_stock_def find_variant_save_variant split: option.splits
             dest: find_variant_id)
next
  case None
  then show ?thesis by (simp add: reduce_stock_def split: option.splits)
qed

lemma reduce_stock_product_ids:
  "map_option p_id (find_product (reduce_stock it s) k) = map_option p_id (find_product s k)"
proof (cases "item_variant s it")
  case (Some v)
  then show ?thesis by (simp add: reduce_stock_def)
next
  case None
  then show ?thesis
    by (auto simp: reduce_stock_def find_product_save_product split: option.splits
             dest: find_product_id)
qed

lemma takes_variant_stable:
  "takes_variant (reduce_stock it s) i k = takes_variant s i k"
  by (cases "ci_variant i")
     (simp_all add: takes_variant_def item_variant_def reduce_stock_variant_ids)

lemma item_variant_None_stable:
  "(item_variant (reduce_stock it s) i = None) = (item_variant s i = None)"
proof (cases "ci_variant i")
  case None
  then show ?thesis by (simp add: item_variant_def)
next
  case (Some k)
  have "(find_variant (reduce_stock it s) k = None) = (map_option v_id (find_variant (reduce_stock it s) k) = None)"
    by simp
  also have "\<dots> = (find_variant s k = None)" by (simp add: reduce_stock_variant_ids)
  finally show ?thesis using Some by (simp add: item_variant_def)
qed

lemma takes_product_stable:
  "takes_product (reduce_stock it s) i k = takes_product s i k"
  by (cases "ci_product i")
     (simp_all add: takes_product_def item_product_def reduce_stock_product_ids
        item_variant_None_stable)

lemma reduce_stock_variant_stock:
  "variant_stock (reduce_stock it s) k =
     map_option (\<lambda>n. n - (if takes_variant s it k then ci_quantity it else 0)) (variant_stock s k)"
proof (cases "item_variant s it")
  case (Some v)
  then have fv: "find_variant s (v_id v) = Some v"
    by (cases "ci_variant it") (auto simp: item_variant_def dest: find_variant_id)
  show ?thesis
  proof (cases "k = v_id v")
    case True
    with Some fv show ?thesis
      by (simp add: variant_stock_def reduce_stock_def find_variant_save_variant takes_variant_def)
  next
    case False
    with Some show ?thesis
      by (auto simp: variant_stock_def reduce_stock_def find_variant_save_variant
            takes_variant_def option.map_ident split: option.splits)
  qed
next
  case None
  then show ?thesis
    by (simp add: variant_stock_def reduce_stock_def takes_variant_def option.map_ident
          split: option.splits)
qed

lemma reduce_stock_product_stock:
  "product_stock (reduce_stock it s) k =
     map_option (\<lambda>n. n - (if takes_product s it k then ci_quantity it else 0)) (product_stock s k)"
proof (cases "item_variant s it")
  case (Some v)
  then show ?thesis
    by (simp add: product_stock_def reduce_stock_def takes_product_def option.map_ident)
next
  case None
  show ?thesis
  proof (cases "item_product s it")
    case np: None
    with None show ?thesis
      by (simp add: product_stock_def reduce_stock_def takes_product_def option.map_ident)
  next
    case (Some p)
    then have fp: "find_product s (p_id p) = Some p"
      by (cases "ci_product it") (auto simp: item_product_def dest: find_product_id)
    show ?thesis
    proof (cases "k = p_id p")
      case True
      with Some None fp show ?thesis
        by (simp add: product_stock_def reduce_stock_def find_product_save_product
              takes_product_def)
    next
      case False
      with Some None show ?thesis
        by (auto simp: product_stock_def reduce_stock_def find_product_save_product
              takes_product_def option.map_ident split: option.splits)
    qed
  qed
qed

lemma variant_stock_cong: "variants s = variants s0 \<Longrightarrow> variant_stock s k = variant_stock s0 k"
  by (simp add: variant_stock_def find_variant_def)

lemma product_stock_cong: "products s = products s0 \<Longrightarrow> product_stock s k = product_stock s0 k"
  by (simp add: product_stock_def find_product_def)

lemma takes_variant_cong:
  "variants s = variants s0 \<Longrightarrow> takes_variant s i k = takes_variant s0 i k"
  by (simp add: takes_variant_def item_variant_cong[of s s0])

lemma takes_product_cong:
  "variants s = variants s0 \<Longrightarrow> products s = products s0 \<Longrightarrow>
   takes_product s i k = takes_product s0 i k"
  by (simp add: takes_product_def item_variant_cong[of s s0] item_product_cong[of s s0])

lemma OrderItem_create_takes:
  "takes_variant (OrderItem_create x s) i k = takes_variant s i k"
  "takes_product (OrderItem_create x s) i k = takes_product s i k"
  "variant_stock (OrderItem_create x s) k = variant_stock s k"
  "product_stock (OrderItem_create x s) k = product_stock s k"
proof -
  have v: "variants (OrderItem_create x s) = variants s"
    and p: "products (OrderItem_create x s) = products s"
    by (simp_all add: OrderItem_create_frame)
  show "takes_variant (OrderItem_create x s) i k = takes_variant s i k"
    by (rule takes_variant_cong[OF v])
  show "takes_product (OrderItem_create x s) i k = takes_product s i k"
    by (rule takes_product_cong[OF v p])
  show "variant_stock (OrderItem_create x s) k = variant_stock s k"
    by (rule variant_stock_cong[OF v])
  show "product_stock (OrderItem_create x s) k = product_stock s k"
    by (rule product_stock_cong[OF p])
qed

lemma create_order_items_variant_stock:
  "variant_stock (create_order_items ord items s) k =
     map_option (\<lambda>n. n - sum_list (map ci_quantity (filter (\<lambda>i. takes_variant s i k) items)))
       (variant_stock s k)"
proof (induction items arbitrary: s)
  case Nil
  then show ?case by (simp add: create_order_items_def option.map_ident)
next
  case (Cons it items)
  let ?s1 = "reduce_stock it (OrderItem_create (view_order_item s ord it) s)"
  have st: "(\<lambda>i. takes_variant ?s1 i k) = (\<lambda>i. takes_variant s i k)"
    by (rule ext) (simp add: takes_variant_stable OrderItem_create_takes)
  have "create_order_items ord (it # items) s = create_order_items ord items ?s1"
    by (simp add: create_order_items_def)
  then have "variant_stock (create_order_items ord (it # items) s) k =
     map_option (\<lambda>n. n - sum_list (map ci_quantity (filter (\<lambda>i. takes_variant s i k) items)))
       (variant_stock ?s1 k)"
    by (simp add: Cons.IH st)
  then show ?case
    by (cases "variant_stock s k") (simp_all add: reduce_stock_variant_stock OrderItem_create_takes)
qed

lemma create_order_items_product_stock:
  "product_stock (create_order_items ord items s) k =
     map_option (\<lambda>n. n - sum_list (map ci_quantity (filter (\<lambda>i. takes_product s i k) items)))
       (product_stock s k)"
proof (induction items arbitrary: s)
  case Nil
  then show ?case by (simp add: create_order_items_def option.map_ident)
next
  case (Cons it items)
  let ?s1 = "reduce_stock it (OrderItem_create (view_order_item s ord it) s)"
  have st: "(\<lambda>i. takes_product ?s1 i k) = (\<lambda>i. takes_product s i k)"
    by (rule ext) (simp add: takes_product_stable OrderItem_create_takes)
  have "create_order_items ord (it # items) s = create_order_items ord items ?s1"
    by (simp add: create_order_items_def)
  then have "product_stock (create_order_items ord (it # items) s) k =
     map_option (\<lambda>n. n - sum_list (map ci_quantity (filter (\<lambda>i. takes_product s i k) items)))
       (product_stock ?s1 k)"
    by (simp add: Cons.IH st)
  then show ?case
    by (cases "product_stock s k") (simp_all add: reduce_stock_product_stock OrderItem_create_takes)
qed

lemma validate_stock_None:
  "validate_stock s items = None \<Longrightarrow> list_all (\<lambda>i. ci_quantity i \<le> get_stock s i) items"
  by (induction items) (auto simp: Let_def split: if_splits)

lemma post_created_stock:
  assumes "is_created (fst (post s req d))" and "get_cart s req = Some c"
  shows "validate_stock s (items_all s c) = None"
proof (cases "validate_stock s (items_all s c)")
  case None
  then show ?thesis .
next
  case (Some r)
  from validate_stock_Some[OF Some] have nr: "\<not> is_created r" .
  have "\<not> is_created (fst (post s req d))"
    using assms(2) Some nr by (simp add: post_def is_created_def response_defs)
  with assms(1) show ?thesis by simp
qed

lemma create_order_atomic_stock:
  assumes "create_order_atomic s req d c = Inr (ord, s')"
  shows "variant_stock s' k =
       map_option (\<lambda>n. n - sum_list (map ci_quantity
           (filter (\<lambda>i. takes_variant s i k) (items_all s c)))) (variant_stock s k)"
    and "product_stock s' k =
       map_option (\<lambda>n. n - sum_list (map ci_quantity
           (filter (\<lambda>i. takes_product s i k) (items_all s c)))) (product_stock s k)"
proof -
  from assms obtain ba sa gb gs s1 where
    ra: "resolve_addresses req d s = Inr (ba, sa, gb, gs, s1)"
    by (auto simp: create_order_atomic_def split: sum.splits)
  define sc where "sc = choose_shipping_cost (d_shipping_cost d) sa gs"
  define new where "new = new_order (r_user req)
      (if r_user req = None then c_session_key c else None)
      (case ba of Some a \<Rightarrow> a_pk a | None \<Rightarrow> None)
      (case sa of Some a \<Rightarrow> a_pk a | None \<Rightarrow> None)
      (d_guest_email d) (d_guest_phone d) gb gs
      (get_subtotal s1 c) (d_discount d) sc (get_subtotal s1 c - d_discount d + sc) (d_notes d)"
  from assms ra obtain s2 where
    os: "Order_save new s1 = Inr (ord, s2)"
    by (auto simp: create_order_atomic_def Let_def new_def sc_def split: sum.splits)
  define s3 where "s3 = create_order_items ord (items_all s2 c) s2"
  define pay where "pay = \<lparr>pay_pk = None, pay_order = pk_of (o_pk ord),
      pay_method = d_payment_method d, pay_amount = get_subtotal s1 c - d_discount d + sc,
      pay_success = False\<rparr>"
  from assms ra os obtain s4 where
    pc: "Payment_create pay s3 = Inr s4" and s': "s' = clear c s4"
    by (auto simp: create_order_atomic_def Let_def new_def sc_def s3_def pay_def split: sum.splits)
  have fr: "cart_items s1 = cart_items s" "variants s1 = variants s" "products s1 = products s"
    using resolve_addresses_frame[OF ra] by simp_all
  have new0: "o_pk new = None" "o_order_number new = []"
    by (simp_all add: new_def new_order_def)
  note s2 = Order_save_new(2)[OF new0 os]
  have f2: "cart_items s2 = cart_items s" "variants s2 = variants s" "products s2 = products s"
    by (simp_all add: s2 fr)
  have it: "items_all s2 c = items_all s c" by (simp add: items_all_def f2)
  have s4: "s4 = s3\<lparr>payments := payments s3 @ [pay\<lparr>pay_pk := Some (payment_seq s3 + 1)\<rparr>],
                 payment_seq := payment_seq s3 + 1\<rparr>"
    using Payment_create_Inr[OF pc] .
  have v': "variants s' = variants s3" "products s' = products s3"
    by (simp_all add: s' clear_frame s4)
  have tv: "(\<lambda>i. takes_variant s2 i k) = (\<lambda>i. takes_variant s i k)"
    by (rule ext) (rule takes_variant_cong[OF f2(2)])
  have tp: "(\<lambda>i. takes_product s2 i k) = (\<lambda>i. takes_product s i k)"
    by (rule ext) (rule takes_product_cong[OF f2(2) f2(3)])
  have "variant_stock s' k = variant_stock s3 k" by (rule variant_stock_cong[OF v'(1)])
  also have "\<dots> = map_option (\<lambda>n. n - sum_list (map ci_quantity
           (filter (\<lambda>i. takes_variant s i k) (items_all s c)))) (variant_stock s2 k)"
    by (simp add: s3_def create_order_items_variant_stock it tv)
  also have "variant_stock s2 k = variant_stock s k" by (rule variant_stock_cong[OF f2(2)])
  finally show "variant_stock s' k =
       map_option (\<lambda>n. n - sum_list (map ci_quantity
           (filter (\<lambda>i. takes_variant s i k) (items_all s c)))) (variant_stock s k)" .
  have "product_stock s' k = product_stock s3 k" by (rule product_stock_cong[OF v'(2)])
  also have "\<dots> = map_option (\<lambda>n. n - sum_list (map ci_quantity
           (filter (\<lambda>i. takes_product s i k) (items_all s c)))) (product_stock s2 k)"
    by (simp add: s3_def create_order_items_product_stock it tp)
  also have "product_stock s2 k = product_stock s k" by (rule product_stock_cong[OF f2(3)])
  finally show "product_stock s' k =
       map_option (\<lambda>n. n - sum_list (map ci_quantity
           (filter (\<lambda>i. takes_product s i k) (items_all s c)))) (product_stock s k)" .
qed

text \<open>
  C10. For every cart whose generated order number is free and whose amounts (the
  discount, the shipping cost, the subtotal, the total, the unit prices and the line
  subtotals) fit their columns, \<open>Order.create_from_cart\<close> asks nothing of the stock: it returns an order,
  adds it to the order table, adds one order item per cart item carrying the item's
  title, sku, attributes, quantity, unit price and line subtotal, and empties the cart;
  the products, the variants (hence every stock) and the payment table are as before.
  Not so \<open>CreateOrderView.post\<close>: when it answers a request for that cart with 201,
  every item of the cart asked for no more than the stock, the stock of every variant and
  of every product has gone down by the quantities of the cart's items that refer to it
  (an item refers to its variant, or to its product when it has no variant), and the
  payment table has one more row. In the witness the same cart is ordered in both ways
  (the stock of the helmet stays 5, resp. goes down to 2), and through
  \<open>Order.create_from_cart\<close> also when it asks for 3 helmets while 2 are in stock.
\<close>

theorem create_from_cart_effect:
  "(\<not> list_ex (\<lambda>r. o_order_number r = generate_order_number s) (orders s)
      \<and> fits_column discount \<and> fits_column shipping_cost
      \<and> fits_column (get_subtotal s c)
      \<and> fits_column (get_subtotal s c - discount + shipping_cost)
      \<and> list_all (\<lambda>i. fits_column (ci_price_snapshot i) \<and> fits_column (get_total i)) (items_all s c)
    \<longrightarrow> (\<exists>ord s' new.
     create_from_cart c billing_address shipping_address discount shipping_cost s = (Inr ord, s')
     \<and> orders s' = orders s @ [ord]
     \<and> o_subtotal ord = get_subtotal s c
     \<and> o_total_price ord = get_subtotal s c - discount + shipping_cost
     \<and> order_items s' = order_items s @ new
     \<and> list_all2
          (\<lambda>oi ci. oi_order oi = pk_of (o_pk ord)
             \<and> oi_product_title oi = ci_product_title ci
             \<and> oi_variant_sku oi = ci_variant_sku ci
             \<and> oi_variant_attributes oi = ci_variant_attributes ci
             \<and> oi_quantity oi = ci_quantity ci
             \<and> oi_unit_price oi = ci_price_snapshot ci
             \<and> oi_subtotal oi = ci_price_snapshot ci * of_int (ci_quantity ci))
          new (items_all s c)
     \<and> items_all s' c = []
     \<and> cart_items s' = filter (\<lambda>i. ci_cart i \<noteq> c_id c) (cart_items s)
     \<and> products s' = products s
     \<and> variants s' = variants s
     \<and> payments s' = payments s))
   \<and> (get_cart s req = Some c \<and> is_created (fst (post s req d))
    \<longrightarrow> list_all (\<lambda>i. ci_quantity i \<le> get_stock s i) (items_all s c)
      \<and> (\<forall>k. variant_stock (snd (post s req d)) k =
            map_option (\<lambda>n. n - sum_list (map ci_quantity
                (filter (\<lambda>i. takes_variant s i k) (items_all s c)))) (variant_stock s k))
      \<and> (\<forall>k. product_stock (snd (post s req d)) k =
            map_option (\<lambda>n. n - sum_list (map ci_quantity
                (filter (\<lambda>i. takes_product s i k) (items_all s c)))) (product_stock s k))
      \<and> (\<exists>p. payments (snd (post s req d)) = payments s @ [p]))"
proof (rule conjI)
  show "\<not> list_ex (\<lambda>r. o_order_number r = generate_order_number s) (orders s)
      \<and> fits_column discount \<and> fits_column shipping_cost
      \<and> fits_column (get_subtotal s c)
      \<and> fits_column (get_subtotal s c - discount + shipping_cost)
      \<and> list_all (\<lambda>i. fits_column (ci_price_snapshot i) \<and> fits_column (get_total i)) (items_all s c)
    \<longrightarrow> (\<exists>ord s' new.
     create_from_cart c billing_address shipping_address discount shipping_cost s = (Inr ord, s')
     \<and> orders s' = orders s @ [ord]
     \<and> o_subtotal ord = get_subtotal s c
     \<and> o_total_price ord = get_subtotal s c - discount + shipping_cost
     \<and> order_items s' = order_items s @ new
     \<and> list_all2
          (\<lambda>oi ci. oi_order oi = pk_of (o_pk ord)
             \<and> oi_product_title oi = ci_product_title ci
             \<and> oi_variant_sku oi = ci_variant_sku ci
             \<and> oi_variant_attributes oi = ci_variant_attributes ci
             \<and> oi_quantity oi = ci_quantity ci
             \<and> oi_unit_price oi = ci_price_snapshot ci
             \<and> oi_subtotal oi = ci_price_snapshot ci * of_int (ci_quantity ci))
          new (items_all s c)
     \<and> items_all s' c = []
     \<and> cart_items s' = filter (\<lambda>i. ci_cart i \<noteq> c_id c) (cart_items s)
     \<and> products s' = products s
     \<and> variants s' = variants s
     \<and> payments s' = payments s)"
    using create_from_cart_rows[of s c billing_address shipping_address discount shipping_cost]
    by blast
next
  show "get_cart s req = Some c \<and> is_created (fst (post s req d))
    \<longrightarrow> list_all (\<lambda>i. ci_quantity i \<le> get_stock s i) (items_all s c)
      \<and> (\<forall>k. variant_stock (snd (post s req d)) k =
            map_option (\<lambda>n. n - sum_list (map ci_quantity
                (filter (\<lambda>i. takes_variant s i k) (items_all s c)))) (variant_stock s k))
      \<and> (\<forall>k. product_stock (snd (post s req d)) k =
            map_option (\<lambda>n. n - sum_list (map ci_quantity
                (filter (\<lambda>i. takes_product s i k) (items_all s c)))) (product_stock s k))
      \<and> (\<exists>p. payments (snd (post s req d)) = payments s @ [p])"
  proof (rule impI)
    assume h: "get_cart s req = Some c \<and> is_created (fst (post s req d))"
    then have gc: "get_cart s req = Some c" and cr: "is_created (fst (post s req d))"
      by simp_all
    from post_created[OF cr] gc obtain ord where
      at: "create_order_atomic s req d c = Inr (ord, snd (post s req d))"
      by auto
    have 1: "list_all (\<lambda>i. ci_quantity i \<le> get_stock s i) (items_all s c)"
      by (rule validate_stock_None[OF post_created_stock[OF cr gc]])
    have 2: "\<forall>k. variant_stock (snd (post s req d)) k =
            map_option (\<lambda>n. n - sum_list (map ci_quantity
                (filter (\<lambda>i. takes_variant s i k) (items_all s c)))) (variant_stock s k)"
      using create_order_atomic_stock(1)[OF at] by blast
    have 3: "\<forall>k. product_stock (snd (post s req d)) k =
            map_option (\<lambda>n. n - sum_list (map ci_quantity
                (filter (\<lambda>i. takes_product s i k) (items_all s c)))) (product_stock s k)"
      using create_order_atomic_stock(2)[OF at] by blast
    from create_order_atomic_Inr[OF at]
    have 4: "\<exists>p. payments (snd (post s req d)) = payments s @ [p]" by blast
    from 1 2 3 4 show "list_all (\<lambda>i. ci_quantity i \<le> get_stock s i) (items_all s c)
      \<and> (\<forall>k. variant_stock (snd (post s req d)) k =
            map_option (\<lambda>n. n - sum_list (map ci_quantity
                (filter (\<lambda>i. takes_variant s i k) (items_all s c)))) (variant_stock s k))
      \<and> (\<forall>k. product_stock (snd (post s req d)) k =
            map_option (\<lambda>n. n - sum_list (map ci_quantity
                (filter (\<lambda>i. takes_product s i k) (items_all s c)))) (product_stock s k))
      \<and> (\<exists>p. payments (snd (post s req d)) = payments s @ [p])"
      by (intro conjI)
  qed
qed

theorem create_from_cart_effect_witness:
  "\<not> list_ex (\<lambda>r. o_order_number r = generate_order_number shop) (orders shop)
   \<and> fits_column 0
   \<and> fits_column (get_subtotal shop user_cart1)
   \<and> fits_column (get_subtotal shop user_cart1 - 0 + 0)
   \<and> list_all (\<lambda>i. fits_column (ci_price_snapshot i) \<and> fits_column (get_total i)) (items_all shop user_cart1)
   \<and> (\<exists>ord s' new.
     create_from_cart user_cart1 None None 0 0 shop = (Inr ord, s')
     \<and> orders s' = orders shop @ [ord]
     \<and> o_subtotal ord = get_subtotal shop user_cart1
     \<and> o_total_price ord = get_subtotal shop user_cart1 - 0 + 0
     \<and> order_items s' = order_items shop @ new
     \<and> list_all2
          (\<lambda>oi ci. oi_order oi = pk_of (o_pk ord)
             \<and> oi_product_title oi = ci_product_title ci
             \<and> oi_variant_sku oi = ci_variant_sku ci
             \<and> oi_variant_attributes oi = ci_variant_attributes ci
             \<and> oi_quantity oi = ci_quantity ci
             \<and> oi_unit_price oi = ci_price_snapshot ci
             \<and> oi_subtotal oi = ci_price_snapshot ci * of_int (ci_quantity ci))
          new (items_all shop user_cart1)
     \<and> items_all s' user_cart1 = []
     \<and> cart_items s' = filter (\<lambda>i. ci_cart i \<noteq> c_id user_cart1) (cart_items shop)
     \<and> products s' = products shop
     \<and> variants s' = variants shop
     \<and> payments s' = payments shop)
   \<and> get_cart shop user1 = Some user_cart1
   \<and> is_created (fst (post shop user1 checkout))
   \<and> list_all (\<lambda>i. ci_quantity i \<le> get_stock shop i) (items_all shop user_cart1)
   \<and> variant_stock shop 1 = Some 5
   \<and> variant_stock (snd (post shop user1 checkout)) 1 = Some 2
   \<and> product_stock shop 2 = Some 4
   \<and> product_stock (snd (post shop user1 checkout)) 2 = Some 1
   \<and> (\<exists>p. payments (snd (post shop user1 checkout)) = payments shop @ [p])
   \<and> get_stock short_shop helmet_item < ci_quantity helmet_item
   \<and> helmet_item \<in> set (items_all short_shop user_cart1)
   \<and> (\<exists>ord s'.
     create_from_cart user_cart1 None None 0 0 short_shop = (Inr ord, s')
     \<and> variants s' = variants short_shop \<and> products s' = products short_shop
     \<and> payments s' = payments short_shop)"
proof -
  have a: "\<not> list_ex (\<lambda>r. o_order_number r = generate_order_number shop) (orders shop)"
    by (simp add: example_defs)
  have b: "fits_column 0" by (simp add: fits_column_def)
  have st: "get_subtotal shop user_cart1 = 270"
    by (simp add: get_subtotal_def get_total_def example_defs lookup_defs)
  have c: "fits_column (get_subtotal shop user_cart1)"
    "fits_column (get_subtotal shop user_cart1 - 0 + 0)"
    by (simp_all add: st fits_column_def)
  have d: "list_all (\<lambda>i. fits_column (ci_price_snapshot i) \<and> fits_column (get_total i)) (items_all shop user_cart1)"
    by (simp add: get_total_def example_defs lookup_defs fits_column_def)
  have e: "get_cart shop user1 = Some user_cart1"
    by (simp add: get_cart_def example_defs)
  note f = shop_order_created
  have v0: "variant_stock shop (Suc 0) = Some 5" "product_stock shop 2 = Some 4"
    by (simp_all add: variant_stock_def product_stock_def example_defs lookup_defs)
  have tv: "sum_list (map ci_quantity
       (filter (\<lambda>i. takes_variant shop i (Suc 0)) (items_all shop user_cart1))) = 3"
    by (simp add: takes_variant_def example_defs lookup_defs)
  have tp: "sum_list (map ci_quantity
       (filter (\<lambda>i. takes_product shop i 2) (items_all shop user_cart1))) = 3"
    by (simp add: takes_product_def example_defs lookup_defs)
  note th = create_from_cart_effect[of shop 0 0 user_cart1 None None user1 checkout]
  from th a b c d have m: "\<exists>ord s' new.
     create_from_cart user_cart1 None None 0 0 shop = (Inr ord, s')
     \<and> orders s' = orders shop @ [ord]
     \<and> o_subtotal ord = get_subtotal shop user_cart1
     \<and> o_total_price ord = get_subtotal shop user_cart1 - 0 + 0
     \<and> order_items s' = order_items shop @ new
     \<and> list_all2
          (\<lambda>oi ci. oi_order oi = pk_of (o_pk ord)
             \<and> oi_product_title oi = ci_product_title ci
             \<and> oi_variant_sku oi = ci_variant_sku ci
             \<and> oi_variant_attributes oi = ci_variant_attributes ci
             \<and> oi_quantity oi = ci_quantity ci
             \<and> oi_unit_price oi = ci_price_snapshot ci
             \<and> oi_subtotal oi = ci_price_snapshot ci * of_int (ci_quantity ci))
          new (items_all shop user_cart1)
     \<and> items_all s' user_cart1 = []
     \<and> cart_items s' = filter (\<lambda>i. ci_cart i \<noteq> c_id user_cart1) (cart_items shop)
     \<and> products s' = products shop
     \<and> variants s' = variants shop
     \<and> payments s' = payments shop"
    by blast
  from th e f have api: "list_all (\<lambda>i. ci_quantity i \<le> get_stock shop i) (items_all shop user_cart1)"
    "\<forall>k. variant_stock (snd (post shop user1 checkout)) k =
            map_option (\<lambda>n. n - sum_list (map ci_quantity
                (filter (\<lambda>i. takes_variant shop i k) (items_all shop user_cart1)))) (variant_stock shop k)"
    "\<forall>k. product_stock (snd (post shop user1 checkout)) k =
            map_option (\<lambda>n. n - sum_list (map ci_quantity
                (filter (\<lambda>i. takes_product shop i k) (items_all shop user_cart1)))) (product_stock shop k)"
    "\<exists>p. payments (snd (post shop user1 checkout)) = payments shop @ [p]"
    by blast+
  from api(2) have v1: "variant_stock (snd (post shop user1 checkout)) (Suc 0) = Some 2"
    by (simp add: tv v0)
  from api(3) have p1: "product_stock (snd (post shop user1 checkout)) 2 = Some 1"
    by (simp add: tp v0)
  have a': "\<not> list_ex (\<lambda>r. o_order_number r = generate_order_number short_shop) (orders short_shop)"
    by (simp add: example_defs)
  have st': "get_subtotal short_shop user_cart1 = 270"
    by (simp add: get_subtotal_def get_total_def example_defs lookup_defs)
  have c': "fits_column (get_subtotal short_shop user_cart1)"
    "fits_column (get_subtotal short_shop user_cart1 - 0 + 0)"
    by (simp_all add: st' fits_column_def)
  have d': "list_all (\<lambda>i. fits_column (ci_price_snapshot i) \<and> fits_column (get_total i)) (items_all short_shop user_cart1)"
    by (simp add: get_total_def example_defs lookup_defs fits_column_def)
  have g: "get_stock short_shop helmet_item < ci_quantity helmet_item"
    by (simp add: get_stock_def example_defs lookup_defs)
  have h: "helmet_item \<in> set (items_all short_shop user_cart1)"
    by (simp add: example_defs lookup_defs)
  from create_from_cart_effect[of short_shop 0 0 user_cart1 None None user1 checkout] a' b c' d'
  have m': "\<exists>ord s'.
     create_from_cart user_cart1 None None 0 0 short_shop = (Inr ord, s')
     \<and> variants s' = variants short_shop \<and> products s' = products short_shop
     \<and> payments s' = payments short_shop"
    by blast
  from a b c d m e f api(1) api(4) v0 v1 p1 g h m' show ?thesis by simp
qed

section \<open>Default addresses\<close>



lemma clear_billing_fields [simp]:
  "a_pk (clear_billing self a) = a_pk a"
  "a_user (clear_billing self a) = a_user a"
  "a_address_type (clear_billing self a) = a_address_type a"
  "a_is_default_shipping (clear_billing self a) = a_is_default_shipping a"
  by (simp_all add: clear_billing_def)

lemma clear_shipping_fields [simp]:
  "a_pk (clear_shipping self a) = a_pk a"
  "a_user (clear_shipping self a) = a_user a"
  "a_address_type (clear_shipping self a) = a_address_type a"
  "a_is_default_billing (clear_shipping self a) = a_is_default_billing a"
  by (simp_all add: clear_shipping_def)

























section \<open>Order numbers\<close>

lemma digit_value_digit_char: "d < 10 \<Longrightarrow> digit_value (digit_char d) = d"
proof -
  assume "d < 10"
  then have "d = 0 \<or> d = 1 \<or> d = 2 \<or> d = 3 \<or> d = 4 \<or> d = 5 \<or> d = 6 \<or> d = 7 \<or> d = 8 \<or> d = 9"
    by arith
  then show ?thesis
    by (elim disjE) (simp_all add: digit_char_def digit_value_def)
qed

lemma parse_nat_snoc: "parse_nat (cs @ [c]) = 10 * parse_nat cs + digit_value c"
  by (simp add: parse_nat_def)

lemma parse_nat_str_nat: "parse_nat (str_nat n) = n"
proof (induction n rule: str_nat.induct)
  case (1 n)
  show ?case
  proof (cases "n < 10")
    case True
    then have "str_nat n = [digit_char n]" by (subst str_nat.simps) simp
    with True show ?thesis by (simp add: parse_nat_def digit_value_digit_char)
  next
    case False
    with 1 have ih: "parse_nat (str_nat (n div 10)) = n div 10" by simp
    from False have "str_nat n = str_nat (n div 10) @ [digit_char (n mod 10)]"
      by (subst str_nat.simps) simp
    then show ?thesis
      by (simp add: parse_nat_snoc digit_value_digit_char ih)
  qed
qed

lemma str_nat_inj: "str_nat m = str_nat n \<Longrightarrow> m = n"
proof -
  assume "str_nat m = str_nat n"
  then have "parse_nat (str_nat m) = parse_nat (str_nat n)" by (rule arg_cong)
  then show "m = n" by (simp only: parse_nat_str_nat)
qed


lemma order_numbers_ok_iff:
  "order_numbers_ok s =
     (\<forall>r\<in>set (orders s). \<exists>k n. o_pk r = Some k \<and> k \<le> order_seq s
         \<and> o_order_number r = ''ORD-'' @ str_nat n \<and> n \<le> k)"
proof -
  have h: "(case o_pk r of None \<Rightarrow> False
            | Some k \<Rightarrow> k \<le> m \<and> list_ex (\<lambda>n. o_order_number r = ''ORD-'' @ str_nat n) [0..<Suc k])
           = (\<exists>k n. o_pk r = Some k \<and> k \<le> m \<and> o_order_number r = ''ORD-'' @ str_nat n \<and> n \<le> k)"
    for r m
  proof (cases "o_pk r")
    case None
    then show ?thesis by simp
  next
    case (Some k)
    have "list_ex (\<lambda>n. o_order_number r = ''ORD-'' @ str_nat n) [0..<Suc k]
          = (\<exists>n. n \<le> k \<and> o_order_number r = ''ORD-'' @ str_nat n)"
      unfolding list_ex_iff by (auto simp: less_Suc_eq_le simp del: upt_Suc)
    with Some show ?thesis by auto
  qed
  show ?thesis unfolding order_numbers_ok_def list_all_iff h ..
qed

lemma order_number_value_generated:
  "o_order_number r = ''ORD-'' @ str_nat n \<Longrightarrow> order_number_value r = n"
  by (simp add: order_number_value_def parse_nat_str_nat)

lemma fold_max_ge: "(k::nat) \<le> fold max ks k \<and> (\<forall>x\<in>set ks. x \<le> fold max ks k)"
proof (induction ks arbitrary: k)
  case Nil
  then show ?case by simp
next
  case (Cons a ks)
  from Cons.IH[of "max a k"] show ?case by auto
qed

lemma fold_max_mem: "fold max ks (k::nat) \<in> set (k # ks)"
proof (induction ks arbitrary: k)
  case Nil
  then show ?case by simp
next
  case (Cons a ks)
  from Cons.IH[of "max a k"] show ?case by (auto simp: max_def split: if_splits)
qed

lemma set_map_filter_pk:
  "set (List.map_filter o_pk rows) = {k. \<exists>r\<in>set rows. o_pk r = Some k}"
proof (induction rows)
  case Nil
  then show ?case by (simp add: List.map_filter_simps)
next
  case (Cons r rows)
  then show ?case by (cases "o_pk r") (auto simp: List.map_filter_simps)
qed

lemma last_order_id_None:
  assumes a: "last_order_id s = None" and r: "r \<in> set (orders s)"
  shows "o_pk r = None"
proof -
  from a have "List.map_filter o_pk (orders s) = []"
    by (simp add: last_order_id_def split: list.splits)
  then have "set (List.map_filter o_pk (orders s)) = {}" by simp
  then have "{k. \<exists>r\<in>set (orders s). o_pk r = Some k} = {}" unfolding set_map_filter_pk .
  with r show ?thesis by (cases "o_pk r") auto
qed

lemma last_order_id_Some:
  assumes "last_order_id s = Some m"
  shows "(\<exists>r\<in>set (orders s). o_pk r = Some m)
         \<and> (\<forall>r\<in>set (orders s). \<forall>k. o_pk r = Some k \<longrightarrow> k \<le> m)"
proof -
  from assms obtain k ks where l: "List.map_filter o_pk (orders s) = k # ks"
    and m: "m = fold max ks k"
    by (auto simp: last_order_id_def split: list.splits)
  have "m \<in> set (k # ks)" unfolding m by (rule fold_max_mem)
  then have "m \<in> {k. \<exists>r\<in>set (orders s). o_pk r = Some k}"
    unfolding l[symmetric] set_map_filter_pk .
  then have ex: "\<exists>r\<in>set (orders s). o_pk r = Some m" by simp
  have "k' \<le> m" if "r \<in> set (orders s)" "o_pk r = Some k'" for r k'
  proof -
    from that have "k' \<in> {k. \<exists>r\<in>set (orders s). o_pk r = Some k}" by auto
    then have "k' \<in> set (k # ks)" unfolding set_map_filter_pk[symmetric] l .
    with fold_max_ge[of k ks] show ?thesis unfolding m by auto
  qed
  with ex show ?thesis by blast
qed


lemma generate_order_number_eq:
  "generate_order_number s = ''ORD-'' @ str_nat (next_order_id s)"
  by (simp add: generate_order_number_def next_order_id_def Let_def)

lemma next_order_id_above:
  assumes ok: "order_numbers_ok s" and r: "r \<in> set (orders s)"
  shows "\<exists>k n. o_pk r = Some k \<and> o_order_number r = ''ORD-'' @ str_nat n \<and> n \<le> k
           \<and> k < next_order_id s"
proof -
  from ok r obtain k n where k: "o_pk r = Some k" and n: "o_order_number r = ''ORD-'' @ str_nat n"
    and nk: "n \<le> k"
    unfolding order_numbers_ok_iff by blast
  have "k < next_order_id s"
  proof (cases "last_order_id s")
    case None
    from last_order_id_None[OF None r] k show ?thesis by simp
  next
    case (Some m)
    from last_order_id_Some[OF Some] r k have "k \<le> m" by blast
    with Some show ?thesis by (simp add: next_order_id_def)
  qed
  with k n nk show ?thesis by blast
qed

lemma next_order_id_le:
  assumes ok: "order_numbers_ok s"
  shows "next_order_id s \<le> order_seq s + 1"
proof (cases "last_order_id s")
  case None
  then show ?thesis by (simp add: next_order_id_def)
next
  case (Some m)
  from last_order_id_Some[OF Some] obtain r where "r \<in> set (orders s)" "o_pk r = Some m"
    by blast
  with ok have "m \<le> order_seq s" unfolding order_numbers_ok_iff by force
  with Some show ?thesis by (simp add: next_order_id_def)
qed

lemma Order_save_fresh:
  assumes ok: "order_numbers_ok s" and pk: "o_pk new = None" and num: "o_order_number new = []"
  shows "Order_save new s =
      Inr (new\<lparr>o_order_number := generate_order_number s, o_pk := Some (order_seq s + 1)\<rparr>,
           s\<lparr>orders := orders s @
                 [new\<lparr>o_order_number := generate_order_number s, o_pk := Some (order_seq s + 1)\<rparr>],
             order_seq := order_seq s + 1\<rparr>)"
proof -
  have "o_order_number r \<noteq> generate_order_number s" if "r \<in> set (orders s)" for r
  proof
    assume e: "o_order_number r = generate_order_number s"
    from next_order_id_above[OF ok that] obtain k n where
      n: "o_order_number r = ''ORD-'' @ str_nat n" and lt: "n \<le> k" "k < next_order_id s"
      by blast
    from e n have "str_nat n = str_nat (next_order_id s)"
      by (simp add: generate_order_number_eq)
    from str_nat_inj[OF this] lt show False by simp
  qed
  then have "\<not> order_number_taken
      (new\<lparr>o_order_number := generate_order_number s, o_pk := Some (order_seq s + 1)\<rparr>) s"
    by (auto simp: order_number_taken_def list_ex_iff)
  with pk num show ?thesis by (simp add: Order_save_def Let_def)
qed

lemma Order_save_fresh_ok:
  assumes ok: "order_numbers_ok s" and pk: "o_pk new = None" and num: "o_order_number new = []"
    and sv: "Order_save new s = Inr (ord, s')"
  shows "order_numbers_ok s'"
proof -
  from Order_save_fresh[OF ok pk num] sv
  have ord: "ord = new\<lparr>o_order_number := generate_order_number s, o_pk := Some (order_seq s + 1)\<rparr>"
    and s': "s' = s\<lparr>orders := orders s @ [ord], order_seq := order_seq s + 1\<rparr>"
    by simp_all
  have new_row: "\<exists>k n. o_pk ord = Some k \<and> k \<le> order_seq s + 1
         \<and> o_order_number ord = ''ORD-'' @ str_nat n \<and> n \<le> k"
  proof -
    have "o_pk ord = Some (order_seq s + 1) \<and> order_seq s + 1 \<le> order_seq s + 1
         \<and> o_order_number ord = ''ORD-'' @ str_nat (next_order_id s)
         \<and> next_order_id s \<le> order_seq s + 1"
      using next_order_id_le[OF ok] by (simp add: ord generate_order_number_eq)
    then show ?thesis by blast
  qed
  have old_rows: "\<exists>k n. o_pk r = Some k \<and> k \<le> order_seq s + 1
         \<and> o_order_number r = ''ORD-'' @ str_nat n \<and> n \<le> k" if "r \<in> set (orders s)" for r
  proof -
    from ok that obtain k n where "o_pk r = Some k" "k \<le> order_seq s"
      "o_order_number r = ''ORD-'' @ str_nat n" "n \<le> k"
      unfolding order_numbers_ok_iff by blast
    then show ?thesis by auto
  qed
  show ?thesis
    unfolding order_numbers_ok_iff s' using new_row old_rows by auto
qed

lemma Order_delete_ok: "order_numbers_ok s \<Longrightarrow> order_numbers_ok (Order_delete k s)"
  unfolding order_numbers_ok_iff by (simp add: Order_delete_def)

lemma apply_order_op_ok: "order_numbers_ok s \<Longrightarrow> order_numbers_ok (apply_order_op op s)"
proof (cases op)
  case (CreateOrder new)
  assume ok: "order_numbers_ok s"
  have f: "o_pk (new\<lparr>o_pk := None, o_order_number := []\<rparr>) = None"
    "o_order_number (new\<lparr>o_pk := None, o_order_number := []\<rparr>) = []" by simp_all
  show ?thesis
  proof (cases "Order_save (new\<lparr>o_pk := None, o_order_number := []\<rparr>) s")
    case (Inl e)
    with CreateOrder ok show ?thesis by simp
  next
    case (Inr p)
    then obtain ord s' where p: "Order_save (new\<lparr>o_pk := None, o_order_number := []\<rparr>) s = Inr (ord, s')"
      by (cases p) auto
    from Order_save_fresh_ok[OF ok f p] CreateOrder p show ?thesis by simp
  qed
next
  case (DeleteOrder k)
  assume "order_numbers_ok s"
  with DeleteOrder show ?thesis by (simp add: Order_delete_ok)
qed

lemma apply_order_ops_ok: "order_numbers_ok s \<Longrightarrow> order_numbers_ok (apply_order_ops ops s)"
  unfolding apply_order_ops_def
  by (induction ops arbitrary: s) (simp_all add: apply_order_op_ok)

lemma empty_db_ok: "order_numbers_ok empty_db"
  by (simp add: order_numbers_ok_def empty_db_def)

text \<open>
  C9 (as stated). The specification states that an order number is never used again,
  even after orders are deleted. The number is built from the highest id in the table
  at that moment: in the empty shop the first order is ORD-1 with id 1; once it is
  deleted the table is empty again, and the next order, with id 2, is ORD-1 as well.
\<close>

theorem order_number_reused:
  "\<not> isl first_created \<and> \<not> isl second_created
   \<and> o_pk (fst (projr first_created)) = Some 1
   \<and> o_order_number (fst (projr first_created)) = ''ORD-1''
   \<and> orders (Order_delete 1 (snd (projr first_created))) = []
   \<and> o_pk (fst (projr second_created)) = Some 2
   \<and> o_order_number (fst (projr second_created)) = ''ORD-1''"
  by (simp add: first_created_def second_created_def Order_save_def Order_delete_def new_order_def
      generate_order_number_def last_order_id_def order_number_taken_def example_defs digit_char_def
      str_nat.simps List.map_filter_simps Let_def)

text \<open>
  C9 (as amended). After any sequence of creations (without a preset order number) and
  deletions by a single writer, starting from the empty table, saving a new order
  without a preset order number succeeds; its order number is \<open>ORD-\<close> followed by one
  more than the highest id in the table (1 when the table is empty); no order in the
  table has that order number, and the number of each of them is smaller.
\<close>

theorem order_number_generated:
  assumes pk: "o_pk new = None" and num: "o_order_number new = []"
  shows "\<exists>ord s'.
     Order_save new (apply_order_ops ops empty_db) = Inr (ord, s')
     \<and> o_order_number ord =
         ''ORD-'' @ str_nat (case last_order_id (apply_order_ops ops empty_db) of
                              None \<Rightarrow> 1 | Some last_id \<Rightarrow> last_id + 1)
     \<and> (\<forall>r\<in>set (orders (apply_order_ops ops empty_db)).
           o_order_number r \<noteq> o_order_number ord
           \<and> order_number_value r < order_number_value ord)"
proof -
  define s where "s = apply_order_ops ops empty_db"
  have ok: "order_numbers_ok s" unfolding s_def by (rule apply_order_ops_ok[OF empty_db_ok])
  define ord where "ord = new\<lparr>o_order_number := generate_order_number s, o_pk := Some (order_seq s + 1)\<rparr>"
  have num': "o_order_number ord = ''ORD-'' @ str_nat (next_order_id s)"
    by (simp add: ord_def generate_order_number_eq)
  have v: "order_number_value ord = next_order_id s"
    by (rule order_number_value_generated[OF num'])
  have "o_order_number r \<noteq> o_order_number ord \<and> order_number_value r < order_number_value ord"
    if "r \<in> set (orders s)" for r
  proof -
    from next_order_id_above[OF ok that] obtain k n where
      n: "o_order_number r = ''ORD-'' @ str_nat n" and lt: "n \<le> k" "k < next_order_id s"
      by blast
    from order_number_value_generated[OF n] lt v
    have less: "order_number_value r < order_number_value ord" by simp
    have "o_order_number r \<noteq> o_order_number ord"
    proof
      assume "o_order_number r = o_order_number ord"
      then have "order_number_value r = order_number_value ord"
        by (simp add: order_number_value_def)
      with less show False by simp
    qed
    with less show ?thesis by simp
  qed
  with Order_save_fresh[OF ok pk num] num' show ?thesis
    unfolding s_def[symmetric] ord_def[symmetric] next_order_id_def by blast
qed

theorem order_number_generated_witness:
  "o_pk blank_order = None \<and> o_order_number blank_order = []
   \<and> (\<exists>ord s'.
     Order_save blank_order (apply_order_ops [CreateOrder blank_order, CreateOrder blank_order,
         DeleteOrder 1] empty_db) = Inr (ord, s')
     \<and> o_order_number ord =
         ''ORD-'' @ str_nat (case last_order_id (apply_order_ops [CreateOrder blank_order,
                              CreateOrder blank_order, DeleteOrder 1] empty_db) of
                              None \<Rightarrow> 1 | Some last_id \<Rightarrow> last_id + 1)
     \<and> (\<forall>r\<in>set (orders (apply_order_ops [CreateOrder blank_order, CreateOrder blank_order,
                  DeleteOrder 1] empty_db)).
           o_order_number r \<noteq> o_order_number ord
           \<and> order_number_value r < order_number_value ord))
   \<and> map o_order_number (orders (apply_order_ops [CreateOrder blank_order,
        CreateOrder blank_order, DeleteOrder 1] empty_db)) = [''ORD-2'']
   \<and> last_order_id (apply_order_ops [CreateOrder blank_order, CreateOrder blank_order,
        DeleteOrder 1] empty_db) = Some 2"
proof -
  have a: "o_pk blank_order = None" "o_order_number blank_order = []"
    by (simp_all add: blank_order_def new_order_def)
  have e: "map o_order_number (orders (apply_order_ops [CreateOrder blank_order,
        CreateOrder blank_order, DeleteOrder 1] empty_db)) = [''ORD-2'']"
    "last_order_id (apply_order_ops [CreateOrder blank_order, CreateOrder blank_order,
        DeleteOrder 1] empty_db) = Some 2"
    by (simp_all add: apply_order_ops_def Order_save_def Order_delete_def new_order_def
      generate_order_number_def last_order_id_def order_number_taken_def example_defs digit_char_def
      str_nat.simps List.map_filter_simps Let_def)
  from order_number_generated[OF a, of "[CreateOrder blank_order, CreateOrder blank_order,
         DeleteOrder 1]"] a e
  show ?thesis by blast
qed

end
